theory Spec2Isabelle
  imports Complex_Main "HOL-Library.Char_ord" "HOL-Library.List_Lexorder"
begin

section \<open>Transaction table\<close>

text \<open>
  One row of \<^verbatim>\<open>creditcard.csv\<close> as the script reads it: the columns
  \<^verbatim>\<open>Time\<close>, \<^verbatim>\<open>V1\<close> .. \<^verbatim>\<open>V28\<close>, \<^verbatim>\<open>Amount\<close> and \<^verbatim>\<open>Class\<close>.
  The float columns are idealised as reals; \<^verbatim>\<open>Class\<close> is an integer column.
\<close>

record txn =
  Time :: real
  V :: "real list"
  Amount :: real
  Class :: int

text \<open>Exceptions the script can run into, as values.\<close>

datatype error = KeyError int | KeyError_column | ValueError

text \<open>
  The data frame \<^verbatim>\<open>df\<close>: the loaded rows in file order, and the two columns the
  script attaches later (\<open>None\<close> until the assignment has run).
\<close>

record frame =
  df_rows :: "txn list"
  df_amount_band :: "string list option"
  df_hour_of_day :: "int list option"

definition read_frame :: "txn list \<Rightarrow> frame" where
  "read_frame rows = \<lparr>df_rows = rows, df_amount_band = None, df_hour_of_day = None\<rparr>"

section \<open>Rounding\<close>

text \<open>
  \<^verbatim>\<open>round(x, n)\<close> and \<^verbatim>\<open>.round(n)\<close> on float data scale by \<open>10 ^ n\<close>, round to the
  nearest integer with ties going to the even one, and scale back.
\<close>

definition rint :: "real \<Rightarrow> int" where
  "rint x =
     (let f = \<lfloor>x\<rfloor>; d = x - of_int f
      in if d < 1 / 2 then f else if 1 / 2 < d then f + 1 else if even f then f else f + 1)"

definition round_dp :: "nat \<Rightarrow> real \<Rightarrow> real" where
  "round_dp n x = of_int (rint (x * 10 ^ n)) / 10 ^ n"

section \<open>Grouping\<close>

text \<open>
  \<^verbatim>\<open>groupby\<close> yields one group per key that occurs, in ascending key order; each group
  keeps its rows in table order. Strings compare character by character.
\<close>

definition group_keys :: "('k::linorder) list \<Rightarrow> 'k list" where
  "group_keys ks = sort (remdups ks)"

definition get_group :: "'k \<Rightarrow> ('k \<times> 'a) list \<Rightarrow> 'a list" where
  "get_group k kxs = map snd (filter (\<lambda>kx. fst kx = k) kxs)"

section \<open>Cell 5: class distribution\<close>

text \<open>
  \<^verbatim>\<open>value_counts\<close>: one entry per value that occurs, most frequent first.
  \<^verbatim>\<open>s[k]\<close> on such a series looks the label \<open>k\<close> up and raises \<^verbatim>\<open>KeyError\<close>
  when it is not there.
\<close>

definition value_counts :: "int list \<Rightarrow> (int \<times> nat) list" where
  "value_counts cs =
     sort_key (\<lambda>kc. - int (snd kc)) (map (\<lambda>k. (k, length (filter (\<lambda>c. c = k) cs))) (remdups cs))"

definition series_get :: "(int \<times> 'a) list \<Rightarrow> int \<Rightarrow> error + 'a" where
  "series_get s k = (case map_of s k of None \<Rightarrow> Inl (KeyError k) | Some v \<Rightarrow> Inr v)"

record class_row =
  transaction_type :: string
  count_col :: nat
  percentage :: real

definition fraud_summary :: "frame \<Rightarrow> error + class_row list" where
  "fraud_summary df =
     (let fraud_counts = value_counts (map Class (df_rows df));
          fraud_pct = map (\<lambda>kc. (fst kc, real (snd kc) / real (length (df_rows df)) * 100)) fraud_counts
      in case series_get fraud_counts 0 of Inl e \<Rightarrow> Inl e | Inr c0 \<Rightarrow>
         (case series_get fraud_counts 1 of Inl e \<Rightarrow> Inl e | Inr c1 \<Rightarrow>
         (case series_get fraud_pct 0 of Inl e \<Rightarrow> Inl e | Inr p0 \<Rightarrow>
         (case series_get fraud_pct 1 of Inl e \<Rightarrow> Inl e | Inr p1 \<Rightarrow>
            Inr [\<lparr>transaction_type = ''Legitimate'', count_col = c0, percentage = round_dp 4 p0\<rparr>,
                 \<lparr>transaction_type = ''Fraudulent'', count_col = c1, percentage = round_dp 4 p1\<rparr>]))))"

section \<open>Cell 7: risk bands\<close>

definition assign_risk_band :: "real \<Rightarrow> string" where
  "assign_risk_band amount =
     (if amount < 10 then ''1. Micro (< $10)''
      else if amount < 100 then ''2. Low ($10-$99)''
      else if amount < 500 then ''3. Medium ($100-$499)''
      else if amount < 1000 then ''4. High ($500-$999)''
      else if amount < 5000 then ''5. Premium ($1K-$4,999)''
      else ''6. Very High (>= $5K)'')"

text \<open>
  \<^verbatim>\<open>df.groupby('amount_band').agg(...)\<close> with the \<^verbatim>\<open>fraud_rate_pct\<close> column of the next
  line: one row per band that occurs.
\<close>

record band_agg =
  amount_band :: string
  total_transactions :: nat
  fraud_count :: int
  total_amount :: real
  fraud_rate_pct :: real

record band_row = band_agg +
  fraud_exposure :: real

definition band_agg_of :: "(string \<times> txn) list \<Rightarrow> band_agg list" where
  "band_agg_of banded =
     map (\<lambda>b. let g = get_group b banded
              in \<lparr>amount_band = b,
                  total_transactions = length g,
                  fraud_count = sum_list (map Class g),
                  total_amount = sum_list (map Amount g),
                  fraud_rate_pct = round_dp 2 (real_of_int (sum_list (map Class g)) / real (length g) * 100)\<rparr>)
         (group_keys (map fst banded))"

text \<open>
  \<^verbatim>\<open>df[df['Class']==1].groupby('amount_band')['Amount'].sum().values\<close>: the sums of the
  bands that hold a row with \<^verbatim>\<open>Class\<close> 1, as a bare array.
\<close>

definition fraud_exposure_values :: "(string \<times> txn) list \<Rightarrow> real list" where
  "fraud_exposure_values banded =
     (let fr = filter (\<lambda>kx. Class (snd kx) = 1) banded
      in map (\<lambda>b. sum_list (map Amount (get_group b fr))) (group_keys (map fst fr)))"

text \<open>
  Assigning an array as a new column goes by position and raises \<^verbatim>\<open>ValueError\<close> when
  its length is not the number of rows.
\<close>

definition set_fraud_exposure :: "band_agg list \<Rightarrow> real list \<Rightarrow> error + band_row list" where
  "set_fraud_exposure summary vals =
     (if length vals \<noteq> length summary then Inl ValueError
      else Inr (map (\<lambda>sv. band_agg.extend (fst sv) \<lparr>fraud_exposure = snd sv\<rparr>) (zip summary vals)))"

text \<open>
  The column of line 150, \<^verbatim>\<open>df['Amount'].apply(assign_risk_band)\<close>, and the rows paired
  with the key they are grouped by.
\<close>

definition amount_band_col :: "txn list \<Rightarrow> string list" where
  "amount_band_col rows = map (\<lambda>r. assign_risk_band (Amount r)) rows"

definition cell7 :: "frame \<Rightarrow> frame \<times> (error + band_row list)" where
  "cell7 df =
     (let df' = df\<lparr>df_amount_band := Some (amount_band_col (df_rows df))\<rparr>;
          banded = zip (amount_band_col (df_rows df)) (df_rows df')
      in (df', set_fraud_exposure (band_agg_of banded) (fraud_exposure_values banded)))"

section \<open>Cell 8: hour of day\<close>

text \<open>
  \<^verbatim>\<open>.astype(int)\<close> on a float column is a cast to a signed 64-bit integer: it drops
  the fractional part, rounding towards zero, and a value whose integer part is not
  between \<open>- 2 ^ 63\<close> and \<open>2 ^ 63 - 1\<close> comes out as \<open>- 2 ^ 63\<close>. The column holds
  finite numbers; a NaN or an infinity in it makes the cast raise and is not a value of
  the type \<open>real\<close>.
\<close>

definition astype_int :: "real \<Rightarrow> int" where
  "astype_int x =
     (let n = (if 0 \<le> x then \<lfloor>x\<rfloor> else \<lceil>x\<rceil>)
      in if - (2 ^ 63) \<le> n \<and> n < 2 ^ 63 then n else - (2 ^ 63))"

text \<open>
  \<^verbatim>\<open>(df['Time'] / 3600).astype(int) % 24\<close>, for one row. The remainder of an integer
  column by a positive number has the sign of the divisor, as \<open>mod\<close> on \<open>int\<close>.
\<close>

definition hour_of_day :: "real \<Rightarrow> int" where
  "hour_of_day t = astype_int (t / 3600) mod 24"

text \<open>
  \<^verbatim>\<open>groupby(['hour_of_day', 'Class']).size().unstack(fill_value=0).reset_index()\<close> has
  one row per hour that occurs and one count column per \<^verbatim>\<open>Class\<close> value that occurs,
  in ascending order. Renaming the columns to three names raises \<^verbatim>\<open>ValueError\<close> unless
  there are exactly two count columns.
\<close>

record hour_row =
  hour :: int
  legitimate :: nat
  fraudulent :: nat
  fraud_rate :: real

definition hourly_of :: "(int \<times> txn) list \<Rightarrow> error + hour_row list" where
  "hourly_of timed =
     (case group_keys (map (\<lambda>kx. Class (snd kx)) timed) of
        [c0, c1] \<Rightarrow>
          Inr (map (\<lambda>h. let g = get_group h timed;
                           l = length (filter (\<lambda>r. Class r = c0) g);
                           f = length (filter (\<lambda>r. Class r = c1) g)
                       in \<lparr>hour = h, legitimate = l, fraudulent = f,
                           fraud_rate = round_dp 4 (real f / (real l + real f) * 100)\<rparr>)
                   (group_keys (map fst timed)))
      | _ \<Rightarrow> Inl ValueError)"

definition hour_of_day_col :: "txn list \<Rightarrow> int list" where
  "hour_of_day_col rows = map (\<lambda>r. hour_of_day (Time r)) rows"

definition cell8 :: "frame \<Rightarrow> frame \<times> (error + hour_row list)" where
  "cell8 df =
     (let df' = df\<lparr>df_hour_of_day := Some (hour_of_day_col (df_rows df))\<rparr>
      in (df', hourly_of (zip (hour_of_day_col (df_rows df)) (df_rows df'))))"

section \<open>Cell 10: executive summary\<close>

text \<open>
  \<^verbatim>\<open>idxmax\<close>: the index label of the first occurrence of the maximum; on an empty
  column it raises \<^verbatim>\<open>ValueError\<close>. Both tables carry the index \<open>0, 1, ...\<close> after
  \<^verbatim>\<open>reset_index\<close>, so the label is the position.
\<close>

fun argmax_from :: "nat \<Rightarrow> real \<Rightarrow> nat \<Rightarrow> real list \<Rightarrow> nat" where
  "argmax_from best m i [] = best"
| "argmax_from best m i (x # xs) =
     (if m < x then argmax_from i x (Suc i) xs else argmax_from best m (Suc i) xs)"

fun idxmax :: "real list \<Rightarrow> error + nat" where
  "idxmax [] = Inl ValueError"
| "idxmax (x # xs) = Inr (argmax_from 0 x 1 xs)"

text \<open>The mean of an empty selection and a quotient by zero rows are NaN: \<open>None\<close>.\<close>

definition mean :: "real list \<Rightarrow> real option" where
  "mean xs = (if xs = [] then None else Some (sum_list xs / real (length xs)))"

record summary =
  total_txns :: nat
  total_fraud :: int
  fraud_rate_overall :: "real option"
  total_volume :: real
  fraud_exposure_total :: real
  avg_fraud_amt :: "real option"
  avg_legit_amt :: "real option"
  peak_hour :: int
  highest_band :: string

definition cell10 :: "frame \<Rightarrow> hour_row list \<Rightarrow> band_row list \<Rightarrow> error + summary" where
  "cell10 df hourly band_summary =
     (let rows = df_rows df;
          fraud_amt = map Amount (filter (\<lambda>r. Class r = 1) rows);
          legit_amt = map Amount (filter (\<lambda>r. Class r = 0) rows)
      in case idxmax (map fraud_rate hourly) of Inl e \<Rightarrow> Inl e | Inr i \<Rightarrow>
         (case idxmax (map fraud_rate_pct band_summary) of Inl e \<Rightarrow> Inl e | Inr j \<Rightarrow>
            Inr \<lparr>total_txns = length rows,
                 total_fraud = sum_list (map Class rows),
                 fraud_rate_overall =
                   (if rows = [] then None
                    else Some (round_dp 4 (real_of_int (sum_list (map Class rows)) / real (length rows) * 100))),
                 total_volume = round_dp 2 (sum_list (map Amount rows)),
                 fraud_exposure_total = round_dp 2 (sum_list fraud_amt),
                 avg_fraud_amt = map_option (round_dp 2) (mean fraud_amt),
                 avg_legit_amt = map_option (round_dp 2) (mean legit_amt),
                 peak_hour = hour (hourly ! i),
                 highest_band = amount_band (band_summary ! j)\<rparr>))"

section \<open>Cells 3, 4, 6 and 9: statistics of the loaded table\<close>

text \<open>
  Statistics of a numeric column as pandas has them. A statistic that is NaN, because
  the column is empty or too short, is \<open>None\<close>. The standard deviation is the sample
  one (divisor \<open>n - 1\<close>); a quantile is interpolated linearly between the two nearest
  sorted values.
\<close>

definition median :: "real list \<Rightarrow> real option" where
  "median xs =
     (let s = sort xs; n = length xs
      in if n = 0 then None
         else if odd n then Some (s ! (n div 2))
         else Some ((s ! (n div 2 - 1) + s ! (n div 2)) / 2))"

definition std :: "real list \<Rightarrow> real option" where
  "std xs =
     (let n = length xs; m = sum_list xs / real n
      in if n < 2 then None
         else Some (sqrt (sum_list (map (\<lambda>x. (x - m)\<^sup>2) xs) / real (n - 1))))"

definition amin :: "real list \<Rightarrow> real option" where
  "amin xs = (case xs of [] \<Rightarrow> None | x # ys \<Rightarrow> Some (fold min ys x))"

definition amax :: "real list \<Rightarrow> real option" where
  "amax xs = (case xs of [] \<Rightarrow> None | x # ys \<Rightarrow> Some (fold max ys x))"

definition quantile :: "real \<Rightarrow> real list \<Rightarrow> real option" where
  "quantile q xs =
     (let s = sort xs; n = length xs; pos = real (n - 1) * q;
          lo = nat \<lfloor>pos\<rfloor>; hi = nat \<lceil>pos\<rceil>
      in if n = 0 then None
         else Some (s ! lo + (pos - real lo) * (s ! hi - s ! lo)))"

text \<open>
  Cell 3: \<^verbatim>\<open>df[['Time', 'Amount', 'Class']].describe().round(4)\<close>, one line of
  statistics for each of the three columns.
\<close>

record describe_row =
  d_count :: nat
  d_mean :: "real option"
  d_std :: "real option"
  d_min :: "real option"
  d_q25 :: "real option"
  d_q50 :: "real option"
  d_q75 :: "real option"
  d_max :: "real option"

definition describe :: "real list \<Rightarrow> describe_row" where
  "describe xs =
     \<lparr>d_count = length xs,
      d_mean = map_option (round_dp 4) (mean xs),
      d_std = map_option (round_dp 4) (std xs),
      d_min = map_option (round_dp 4) (amin xs),
      d_q25 = map_option (round_dp 4) (quantile (1 / 4) xs),
      d_q50 = map_option (round_dp 4) (quantile (1 / 2) xs),
      d_q75 = map_option (round_dp 4) (quantile (3 / 4) xs),
      d_max = map_option (round_dp 4) (amax xs)\<rparr>"

definition cell3 :: "frame \<Rightarrow> frame \<times> (error + describe_row list)" where
  "cell3 df =
     (df, Inr [describe (map Time (df_rows df)),
               describe (map Amount (df_rows df)),
               describe (map (\<lambda>r. real_of_int (Class r)) (df_rows df))])"

text \<open>
  Cell 4: the number of missing values (the loaded columns hold numbers, so there are
  none) and \<^verbatim>\<open>df.duplicated().sum()\<close>, the number of rows equal to an earlier row.
\<close>

record audit =
  missing :: nat
  dupes :: nat

definition cell4 :: "frame \<Rightarrow> frame \<times> (error + audit)" where
  "cell4 df = (df, Inr \<lparr>missing = 0, dupes = length (df_rows df) - length (remdups (df_rows df))\<rparr>)"

text \<open>
  Cell 5 with its charts: the bar chart and the pie chart take the two names
  \<^verbatim>\<open>['Legitimate', 'Fraudulent']\<close> with \<^verbatim>\<open>fraud_counts.values\<close>, and raise
  \<^verbatim>\<open>ValueError\<close> unless there are exactly two counts.
\<close>

definition class_charts :: "(int \<times> nat) list \<Rightarrow> error + unit" where
  "class_charts fraud_counts = (if length fraud_counts = 2 then Inr () else Inl ValueError)"

definition cell5 :: "frame \<Rightarrow> frame \<times> (error + class_row list)" where
  "cell5 df =
     (df, case fraud_summary df of Inl e \<Rightarrow> Inl e | Inr t \<Rightarrow>
            (case class_charts (value_counts (map Class (df_rows df))) of
               Inl e \<Rightarrow> Inl e | Inr u \<Rightarrow> Inr t))"

text \<open>
  Cell 6: count, mean, median, standard deviation, minimum and maximum of the amounts of
  the rows with \<^verbatim>\<open>Class\<close> 0 and of those with \<^verbatim>\<open>Class\<close> 1, rounded to 2 places.
\<close>

record amount_stat =
  a_count :: nat
  a_mean :: "real option"
  a_median :: "real option"
  a_std :: "real option"
  a_min :: "real option"
  a_max :: "real option"

definition amount_stat_of :: "real list \<Rightarrow> amount_stat" where
  "amount_stat_of xs =
     \<lparr>a_count = length xs,
      a_mean = map_option (round_dp 2) (mean xs),
      a_median = map_option (round_dp 2) (median xs),
      a_std = map_option (round_dp 2) (std xs),
      a_min = map_option (round_dp 2) (amin xs),
      a_max = map_option (round_dp 2) (amax xs)\<rparr>"

definition cell6 :: "frame \<Rightarrow> frame \<times> (error + amount_stat \<times> amount_stat)" where
  "cell6 df =
     (let legit_amt = map Amount (filter (\<lambda>r. Class r = 0) (df_rows df));
          fraud_amt = map Amount (filter (\<lambda>r. Class r = 1) (df_rows df))
      in (df, Inr (amount_stat_of legit_amt, amount_stat_of fraud_amt)))"

text \<open>
  Cell 9: the Pearson correlation of each pair of the columns \<^verbatim>\<open>V1\<close> to \<^verbatim>\<open>V10\<close>,
  \<^verbatim>\<open>Amount\<close> and \<^verbatim>\<open>Class\<close>. It is NaN when one of the two columns has no spread.
  Selecting the columns raises \<^verbatim>\<open>KeyError\<close> when one of \<^verbatim>\<open>V1\<close> to \<^verbatim>\<open>V10\<close> is not in
  the table, which in this model is a row with fewer than ten features.
\<close>

definition pearson :: "real list \<Rightarrow> real list \<Rightarrow> real option" where
  "pearson xs ys =
     (let n = length xs;
          mx = sum_list xs / real n; my = sum_list ys / real n;
          sxx = sum_list (map (\<lambda>x. (x - mx)\<^sup>2) xs);
          syy = sum_list (map (\<lambda>y. (y - my)\<^sup>2) ys);
          sxy = sum_list (map (\<lambda>xy. (fst xy - mx) * (snd xy - my)) (zip xs ys))
      in if sqrt (sxx * syy) = 0 then None else Some (sxy / sqrt (sxx * syy)))"

definition feature_cols :: "txn list \<Rightarrow> real list list" where
  "feature_cols rows =
     map (\<lambda>k. map (\<lambda>r. V r ! k) rows) [0..<10]
     @ [map Amount rows, map (\<lambda>r. real_of_int (Class r)) rows]"

definition cell9 :: "frame \<Rightarrow> frame \<times> (error + real option list list)" where
  "cell9 df =
     (df, if \<exists>r \<in> set (df_rows df). length (V r) < 10 then Inl KeyError_column
          else Inr (map (\<lambda>xs. map (\<lambda>ys. pearson xs ys) (feature_cols (df_rows df)))
                        (feature_cols (df_rows df))))"

definition cell10_run ::
  "frame \<Rightarrow> hour_row list \<Rightarrow> band_row list \<Rightarrow> frame \<times> (error + summary)" where
  "cell10_run df hourly band_summary = (df, cell10 df hourly band_summary)"

section \<open>The script, cell after cell\<close>

text \<open>
  The cells run in order on the one data frame; each takes the frame and gives it back
  with its table or its exception, and an exception ends the run there. The result is
  the frame as the run leaves it, and the tables or the exception. The charts are files
  written to the directory \<^verbatim>\<open>outputs\<close>, which is taken to exist; apart from the charts
  of cell 5 they draw whatever table they are given.
\<close>

definition then_cell ::
  "frame \<times> (error + 'a) \<Rightarrow> (frame \<Rightarrow> 'a \<Rightarrow> frame \<times> (error + 'b)) \<Rightarrow> frame \<times> (error + 'b)" where
  "then_cell m k = (case m of (df, Inl e) \<Rightarrow> (df, Inl e) | (df, Inr x) \<Rightarrow> k df x)"

record report =
  describe_table :: "describe_row list"
  audit_result :: audit
  class_table :: "class_row list"
  amount_stats :: "amount_stat \<times> amount_stat"
  band_table :: "band_row list"
  hour_table :: "hour_row list"
  corr_matrix :: "real option list list"
  executive :: summary

definition pipeline :: "frame \<Rightarrow> frame \<times> (error + report)" where
  "pipeline df =
     then_cell (cell3 df) (\<lambda>df ds.
     then_cell (cell4 df) (\<lambda>df au.
     then_cell (cell5 df) (\<lambda>df cs.
     then_cell (cell6 df) (\<lambda>df am.
     then_cell (cell7 df) (\<lambda>df bs.
     then_cell (cell8 df) (\<lambda>df hs.
     then_cell (cell9 df) (\<lambda>df cm.
     then_cell (cell10_run df hs bs) (\<lambda>df ex.
       (df, Inr \<lparr>describe_table = ds, audit_result = au, class_table = cs, amount_stats = am,
                 band_table = bs, hour_table = hs, corr_matrix = cm, executive = ex\<rparr>)))))))))"

section \<open>Properties of the band assignment\<close>

text \<open>
  Claim C4. For every non-negative amount the band is exactly one of the six labels, and
  each label is returned on its half-open interval and nowhere else: \<open>[0,10)\<close> Micro,
  \<open>[10,100)\<close> Low, \<open>[100,500)\<close> Medium, \<open>[500,1000)\<close> High, \<open>[1000,5000)\<close> Premium,
  \<open>[5000,\<infinity>)\<close> Very High. So the intervals cover the non-negative amounts without gap
  or overlap, and 9.99 is Micro, 10.00 and 99.99 are Low, 100.00 is Medium.
\<close>

theorem assign_risk_band_partition:
  assumes "0 \<le> a"
  shows "(assign_risk_band a = ''1. Micro (< $10)'' \<longleftrightarrow> 0 \<le> a \<and> a < 10)
       \<and> (assign_risk_band a = ''2. Low ($10-$99)'' \<longleftrightarrow> 10 \<le> a \<and> a < 100)
       \<and> (assign_risk_band a = ''3. Medium ($100-$499)'' \<longleftrightarrow> 100 \<le> a \<and> a < 500)
       \<and> (assign_risk_band a = ''4. High ($500-$999)'' \<longleftrightarrow> 500 \<le> a \<and> a < 1000)
       \<and> (assign_risk_band a = ''5. Premium ($1K-$4,999)'' \<longleftrightarrow> 1000 \<le> a \<and> a < 5000)
       \<and> (assign_risk_band a = ''6. Very High (>= $5K)'' \<longleftrightarrow> 5000 \<le> a)
       \<and> assign_risk_band a \<in> {''1. Micro (< $10)'', ''2. Low ($10-$99)'', ''3. Medium ($100-$499)'',
             ''4. High ($500-$999)'', ''5. Premium ($1K-$4,999)'', ''6. Very High (>= $5K)''}
       \<and> assign_risk_band (999 / 100) = ''1. Micro (< $10)''
       \<and> assign_risk_band 10 = ''2. Low ($10-$99)''
       \<and> assign_risk_band (9999 / 100) = ''2. Low ($10-$99)''
       \<and> assign_risk_band 100 = ''3. Medium ($100-$499)''"
  using assms by (simp add: assign_risk_band_def)

theorem assign_risk_band_partition_witness:
  "(0::real) \<le> 750 \<and> assign_risk_band 750 = ''4. High ($500-$999)''
     \<and> assign_risk_band 750 \<noteq> ''3. Medium ($100-$499)''"
  using assign_risk_band_partition [of 750] by (simp add: assign_risk_band_def)

text \<open>
  Claim C10. The band assignment has a result for every real amount, and every amount
  below 10, the negative ones included, is put in the Micro band.
\<close>

theorem assign_risk_band_below_ten:
  "a < 10 \<Longrightarrow> assign_risk_band a = ''1. Micro (< $10)''"
  by (simp add: assign_risk_band_def)

theorem assign_risk_band_below_ten_witness:
  "(-25 / 2 :: real) < 10 \<and> assign_risk_band (-25 / 2) = ''1. Micro (< $10)''"
  using assign_risk_band_below_ten [of "-25 / 2"] by simp

section \<open>Properties of the hour of day\<close>

lemma hour_of_day_bounds: "0 \<le> hour_of_day t \<and> hour_of_day t \<le> 23"
  unfolding hour_of_day_def
  using pos_mod_sign [of 24 "astype_int (t / 3600)"] pos_mod_bound [of 24 "astype_int (t / 3600)"]
  by simp









section \<open>Grouping and summing\<close>

lemma group_keys_set [simp]: "set (group_keys ks) = set ks"
  by (simp add: group_keys_def)

lemma group_keys_distinct [simp]: "distinct (group_keys ks)"
  by (simp add: group_keys_def)

lemma group_keys_sorted [simp]: "sorted (group_keys ks)"
  by (simp add: group_keys_def)

lemma get_group_Cons:
  "get_group k (kx # kxs) = (if fst kx = k then snd kx # get_group k kxs else get_group k kxs)"
  by (simp add: get_group_def)

lemma get_group_Nil [simp]: "get_group k [] = []"
  by (simp add: get_group_def)

lemma sum_list_delta_absent:
  fixes c :: "'a::comm_monoid_add"
  shows "k0 \<notin> set ks \<Longrightarrow> sum_list (map (\<lambda>k. if k0 = k then c else 0) ks) = 0"
  by (induction ks) auto

lemma sum_list_delta:
  fixes c :: "'a::comm_monoid_add"
  assumes "distinct ks" "k0 \<in> set ks"
  shows "sum_list (map (\<lambda>k. if k0 = k then c else 0) ks) = c"
  using assms by (induction ks) (auto simp: sum_list_delta_absent)

lemma sum_over_groups:
  fixes f :: "'a \<Rightarrow> 'b::comm_monoid_add"
  assumes "distinct ks" "fst ` set kxs \<subseteq> set ks"
  shows "sum_list (map (\<lambda>k. sum_list (map f (get_group k kxs))) ks) = sum_list (map (\<lambda>kx. f (snd kx)) kxs)"
  using assms(2)
proof (induction kxs)
  case Nil
  show ?case by simp
next
  case (Cons kx kxs)
  have mem: "fst kx \<in> set ks" using Cons.prems by simp
  have "sum_list (map (\<lambda>k. sum_list (map f (get_group k (kx # kxs)))) ks)
      = sum_list (map (\<lambda>k. (if fst kx = k then f (snd kx) else 0) + sum_list (map f (get_group k kxs))) ks)"
    by (rule arg_cong [where f = sum_list]) (simp add: get_group_Cons)
  also have "\<dots> = sum_list (map (\<lambda>k. if fst kx = k then f (snd kx) else 0) ks)
                  + sum_list (map (\<lambda>k. sum_list (map f (get_group k kxs))) ks)"
    by (simp add: sum_list_addf)
  also have "\<dots> = f (snd kx) + sum_list (map (\<lambda>kx. f (snd kx)) kxs)"
    using Cons.IH Cons.prems sum_list_delta [OF assms(1) mem, of "f (snd kx)"] by simp
  finally show ?case by simp
qed

lemma sum_over_group_keys:
  fixes f :: "'a \<Rightarrow> 'b::comm_monoid_add"
  shows "sum_list (map (\<lambda>k. sum_list (map f (get_group k kxs))) (group_keys (map fst kxs)))
       = sum_list (map (\<lambda>kx. f (snd kx)) kxs)"
  by (rule sum_over_groups) simp_all

lemma sum_list_ones: "sum_list (map (\<lambda>x. Suc 0) xs) = length xs"
  by (induction xs) simp_all

lemma count_over_group_keys:
  "sum_list (map (\<lambda>k. length (get_group k kxs)) (group_keys (map fst kxs))) = length kxs"
  using sum_over_group_keys [of "\<lambda>x. Suc 0" kxs] by (simp add: sum_list_ones)

lemma sum_snd_zip_col: "sum_list (map (\<lambda>kx. f (snd kx)) (zip (map g rows) rows)) = sum_list (map f rows)"
  by (induction rows) simp_all

lemma sum_class_binary:
  "(\<And>r. r \<in> set rows \<Longrightarrow> Class r = 0 \<or> Class r = 1) \<Longrightarrow>
     sum_list (map Class rows) = int (length (filter (\<lambda>r. Class r = 1) rows))"
  by (induction rows) auto

lemma band_agg_totals:
  "sum_list (map total_transactions (band_agg_of kxs)) = length kxs"
  using count_over_group_keys [of kxs]
  by (simp add: band_agg_of_def comp_def Let_def)

lemma band_agg_frauds:
  "sum_list (map fraud_count (band_agg_of kxs)) = sum_list (map (\<lambda>kx. Class (snd kx)) kxs)"
  using sum_over_group_keys [of Class kxs]
  by (simp add: band_agg_of_def comp_def Let_def)

lemma map_fst_zip_fun:
  "length xs = length ys \<Longrightarrow> map (\<lambda>p. f (fst p)) (zip xs ys) = map f xs"
  by (induction xs ys rule: list_induct2) simp_all

lemma map_snd_zip_fun:
  "length xs = length ys \<Longrightarrow> map (\<lambda>p. f (snd p)) (zip xs ys) = map f ys"
  by (induction xs ys rule: list_induct2) simp_all

lemma set_fraud_exposure_agg:
  assumes "set_fraud_exposure summary vals = Inr bs"
  shows "map total_transactions bs = map total_transactions summary"
    and "map fraud_count bs = map fraud_count summary"
    and "map amount_band bs = map amount_band summary"
    and "map fraud_rate_pct bs = map fraud_rate_pct summary"
    and "map fraud_exposure bs = vals"
    and "length vals = length summary"
proof -
  from assms have len: "length summary = length vals"
    and bs: "bs = map (\<lambda>sv. band_agg.extend (fst sv) \<lparr>fraud_exposure = snd sv\<rparr>) (zip summary vals)"
    by (auto simp: set_fraud_exposure_def split: if_splits)
  show "map total_transactions bs = map total_transactions summary"
    using map_fst_zip_fun [OF len, of total_transactions] by (simp add: bs band_agg.defs comp_def)
  show "map fraud_count bs = map fraud_count summary"
    using map_fst_zip_fun [OF len, of fraud_count] by (simp add: bs band_agg.defs comp_def)
  show "map amount_band bs = map amount_band summary"
    using map_fst_zip_fun [OF len, of amount_band] by (simp add: bs band_agg.defs comp_def)
  show "map fraud_rate_pct bs = map fraud_rate_pct summary"
    using map_fst_zip_fun [OF len, of fraud_rate_pct] by (simp add: bs band_agg.defs comp_def)
  show "map fraud_exposure bs = vals"
    using map_snd_zip_fun [OF len, of "\<lambda>v. v"] by (simp add: bs band_agg.defs comp_def)
  show "length vals = length summary" using len by simp
qed

section \<open>Properties of the band summary\<close>

text \<open>
  Claim C7. The \<^verbatim>\<open>total_transactions\<close> of the band summary add up to the number of rows
  of the table, and, the labels being 0 or 1, its \<^verbatim>\<open>fraud_count\<close> add up to the number
  of rows with label 1. This holds of the table as aggregated (lines 152 to 157) and of
  the table cell 7 ends with, when it gets there. Bands without a row have no line in the
  summary and add nothing.
\<close>

theorem band_summary_totals:
  assumes "\<forall>r \<in> set (df_rows df). Class r = 0 \<or> Class r = 1"
  shows "sum_list (map total_transactions (band_agg_of (zip (amount_band_col (df_rows df)) (df_rows df))))
           = length (df_rows df)
       \<and> sum_list (map fraud_count (band_agg_of (zip (amount_band_col (df_rows df)) (df_rows df))))
           = int (length (filter (\<lambda>r. Class r = 1) (df_rows df)))
       \<and> (\<forall>bs. snd (cell7 df) = Inr bs \<longrightarrow>
             sum_list (map total_transactions bs) = length (df_rows df)
           \<and> sum_list (map fraud_count bs) = int (length (filter (\<lambda>r. Class r = 1) (df_rows df))))"
proof -
  let ?rows = "df_rows df"
  let ?banded = "zip (amount_band_col ?rows) ?rows"
  have tot: "sum_list (map total_transactions (band_agg_of ?banded)) = length ?rows"
    by (simp add: band_agg_totals amount_band_col_def)
  have "sum_list (map fraud_count (band_agg_of ?banded)) = sum_list (map Class ?rows)"
    by (simp add: band_agg_frauds amount_band_col_def sum_snd_zip_col)
  also have "\<dots> = int (length (filter (\<lambda>r. Class r = 1) ?rows))"
    using assms by (intro sum_class_binary) blast
  finally have fr: "sum_list (map fraud_count (band_agg_of ?banded))
      = int (length (filter (\<lambda>r. Class r = 1) ?rows))" .
  have "sum_list (map total_transactions bs) = length ?rows
      \<and> sum_list (map fraud_count bs) = int (length (filter (\<lambda>r. Class r = 1) ?rows))"
    if "snd (cell7 df) = Inr bs" for bs
  proof -
    from that have "set_fraud_exposure (band_agg_of ?banded) (fraud_exposure_values ?banded) = Inr bs"
      by (simp add: cell7_def Let_def)
    from set_fraud_exposure_agg(1,2) [OF this] tot fr show ?thesis by simp
  qed
  with tot fr show ?thesis by blast
qed

lemmas run_defs = read_frame_def fraud_summary_def value_counts_def series_get_def Let_def
  cell7_def amount_band_col_def assign_risk_band_def band_agg_of_def group_keys_def get_group_def
  fraud_exposure_values_def set_fraud_exposure_def band_agg.defs round_dp_def rint_def
  cell8_def hour_of_day_col_def hour_of_day_def astype_int_def hourly_of_def cell10_def mean_def
  pipeline_def then_cell_def cell3_def cell4_def cell5_def class_charts_def cell6_def cell9_def
  cell10_run_def

theorem band_summary_totals_witness:
  "sum_list (map total_transactions (band_agg_of (zip
       (amount_band_col [\<lparr>Time = 0, V = [], Amount = 5, Class = 1\<rparr>,
                         \<lparr>Time = 60, V = [], Amount = 7, Class = 0\<rparr>,
                         \<lparr>Time = 3600, V = [], Amount = 50, Class = 1\<rparr>])
       [\<lparr>Time = 0, V = [], Amount = 5, Class = 1\<rparr>,
        \<lparr>Time = 60, V = [], Amount = 7, Class = 0\<rparr>,
        \<lparr>Time = 3600, V = [], Amount = 50, Class = 1\<rparr>]))) = 3
   \<and> sum_list (map fraud_count (band_agg_of (zip
       (amount_band_col [\<lparr>Time = 0, V = [], Amount = 5, Class = 1\<rparr>,
                         \<lparr>Time = 60, V = [], Amount = 7, Class = 0\<rparr>,
                         \<lparr>Time = 3600, V = [], Amount = 50, Class = 1\<rparr>])
       [\<lparr>Time = 0, V = [], Amount = 5, Class = 1\<rparr>,
        \<lparr>Time = 60, V = [], Amount = 7, Class = 0\<rparr>,
        \<lparr>Time = 3600, V = [], Amount = 50, Class = 1\<rparr>]))) = 2
   \<and> map total_transactions (projr (snd (cell7 (read_frame
       [\<lparr>Time = 0, V = [], Amount = 5, Class = 1\<rparr>,
        \<lparr>Time = 60, V = [], Amount = 7, Class = 0\<rparr>,
        \<lparr>Time = 3600, V = [], Amount = 50, Class = 1\<rparr>])))) = [2, 1]
   \<and> map fraud_count (projr (snd (cell7 (read_frame
       [\<lparr>Time = 0, V = [], Amount = 5, Class = 1\<rparr>,
        \<lparr>Time = 60, V = [], Amount = 7, Class = 0\<rparr>,
        \<lparr>Time = 3600, V = [], Amount = 50, Class = 1\<rparr>])))) = [1, 1]"
  using band_summary_totals [of "read_frame
       [\<lparr>Time = 0, V = [], Amount = 5, Class = 1\<rparr>,
        \<lparr>Time = 60, V = [], Amount = 7, Class = 0\<rparr>,
        \<lparr>Time = 3600, V = [], Amount = 50, Class = 1\<rparr>]"]
  by (simp add: run_defs)

lemma get_group_zip_col:
  "get_group k (filter (\<lambda>kx. P (snd kx)) (zip (map g rows) rows)) = filter (\<lambda>r. g r = k \<and> P r) rows"
  by (induction rows) (auto simp: get_group_def)

lemma get_group_zip_col_all:
  "get_group k (zip (map g rows) rows) = filter (\<lambda>r. g r = k) rows"
  by (induction rows) (auto simp: get_group_def)

lemma fst_zip_col: "map fst (zip (map g rows) rows) = map g rows"
  by (induction rows) simp_all

lemma fst_filter_zip_col:
  "map fst (filter (\<lambda>kx. P (snd kx)) (zip (map g rows) rows)) = map g (filter P rows)"
  by (induction rows) simp_all

lemma group_keys_length: "length (group_keys ks) = card (set ks)"
proof -
  have "length (group_keys ks) = card (set (group_keys ks))"
    by (rule distinct_card [symmetric]) simp
  then show ?thesis by simp
qed

lemma group_keys_subset_same_length:
  assumes "set ks' \<subseteq> set ks" "length (group_keys ks') = length (group_keys ks)"
  shows "group_keys ks' = group_keys ks"
proof -
  from assms(2) have "card (set ks') = card (set ks)" by (simp add: group_keys_length)
  with assms(1) have "set ks' = set ks" by (simp add: card_subset_eq)
  then have "set (group_keys ks') = set (group_keys ks)" by simp
  then show ?thesis
    by (intro sorted_distinct_set_unique) simp_all
qed

lemma zip_map_same: "zip (map f ks) (map g ks) = map (\<lambda>k. (f k, g k)) ks"
  by (induction ks) simp_all

lemma image_filter_differs:
  "g ` {x \<in> S. P x} \<noteq> g ` S \<longleftrightarrow> (\<exists>r \<in> S. \<forall>r' \<in> S. g r' = g r \<longrightarrow> \<not> P r')"
proof
  assume "g ` {x \<in> S. P x} \<noteq> g ` S"
  moreover have "g ` {x \<in> S. P x} \<subseteq> g ` S" by blast
  ultimately obtain y where y: "y \<in> g ` S" "y \<notin> g ` {x \<in> S. P x}" by blast
  then obtain r where r: "r \<in> S" "y = g r" by blast
  have "\<forall>r' \<in> S. g r' = g r \<longrightarrow> \<not> P r'"
  proof (intro ballI impI notI)
    fix r' assume "r' \<in> S" "g r' = g r" "P r'"
    then have "g r \<in> g ` {x \<in> S. P x}" by (metis (mono_tags, lifting) image_eqI mem_Collect_eq)
    with y(2) r(2) show False by simp
  qed
  with r(1) show "\<exists>r \<in> S. \<forall>r' \<in> S. g r' = g r \<longrightarrow> \<not> P r'" by blast
next
  assume "\<exists>r \<in> S. \<forall>r' \<in> S. g r' = g r \<longrightarrow> \<not> P r'"
  then obtain r where r: "r \<in> S" "\<forall>r' \<in> S. g r' = g r \<longrightarrow> \<not> P r'" by blast
  have "g r \<notin> g ` {x \<in> S. P x}"
  proof
    assume "g r \<in> g ` {x \<in> S. P x}"
    then obtain r' where "r' \<in> S" "P r'" "g r = g r'" by blast
    with r(2) show False by metis
  qed
  moreover have "g r \<in> g ` S" using r(1) by blast
  ultimately show "g ` {x \<in> S. P x} \<noteq> g ` S" by metis
qed

text \<open>
  Line 158 goes through exactly when every band that holds a row also holds a row with
  \<^verbatim>\<open>Class\<close> 1; then each band's \<^verbatim>\<open>fraud_exposure\<close> is the sum of the amounts of its
  rows with \<^verbatim>\<open>Class\<close> 1.
\<close>

lemma cell7_raises_iff:
  "snd (cell7 df) = Inl ValueError \<longleftrightarrow>
     (\<exists>r \<in> set (df_rows df). \<forall>r' \<in> set (df_rows df).
         assign_risk_band (Amount r') = assign_risk_band (Amount r) \<longrightarrow> Class r' \<noteq> 1)"
proof -
  let ?rows = "df_rows df"
  let ?g = "\<lambda>r. assign_risk_band (Amount r)"
  let ?A = "?g ` set ?rows"
  let ?F = "?g ` {x \<in> set ?rows. Class x = 1}"
  have sub: "?F \<subseteq> ?A" by blast
  have fin: "finite ?A" by simp
  let ?banded = "zip (map ?g ?rows) ?rows"
  have vals_len: "length (fraud_exposure_values ?banded)
      = length (group_keys (map ?g (filter (\<lambda>r. Class r = 1) ?rows)))"
    by (simp add: fraud_exposure_values_def Let_def fst_filter_zip_col [where P = "\<lambda>r. Class r = 1"])
  have agg_len: "length (band_agg_of ?banded) = length (group_keys (map ?g ?rows))"
    by (simp add: band_agg_of_def fst_zip_col)
  have "snd (cell7 df) = Inl ValueError \<longleftrightarrow>
          length (group_keys (map ?g (filter (\<lambda>r. Class r = 1) ?rows))) \<noteq> length (group_keys (map ?g ?rows))"
    by (simp add: cell7_def Let_def set_fraud_exposure_def amount_band_col_def vals_len agg_len)
  also have "\<dots> \<longleftrightarrow> card ?F \<noteq> card ?A"
    by (simp add: group_keys_length)
  also have "\<dots> \<longleftrightarrow> ?F \<noteq> ?A"
    using card_subset_eq [OF fin sub] by auto
  finally show ?thesis
    by (simp only: image_filter_differs [where P = "\<lambda>r. Class r = 1"])
qed

lemma cell7_fraud_exposure:
  assumes "snd (cell7 df) = Inr bs" "b \<in> set bs"
  shows "fraud_exposure b =
           sum_list (map Amount (filter (\<lambda>r. assign_risk_band (Amount r) = amount_band b \<and> Class r = 1) (df_rows df)))"
proof -
  let ?rows = "df_rows df"
  let ?g = "\<lambda>r. assign_risk_band (Amount r)"
  let ?banded = "zip (map ?g ?rows) ?rows"
  let ?ks = "group_keys (map ?g ?rows)"
  let ?ks' = "group_keys (map ?g (filter (\<lambda>r. Class r = 1) ?rows))"
  let ?E = "\<lambda>k. sum_list (map Amount (filter (\<lambda>r. ?g r = k \<and> Class r = 1) ?rows))"
  from assms(1) have ok: "set_fraud_exposure (band_agg_of ?banded) (fraud_exposure_values ?banded) = Inr bs"
    by (simp add: cell7_def Let_def amount_band_col_def)
  have vals: "fraud_exposure_values ?banded = map ?E ?ks'"
    by (simp add: fraud_exposure_values_def Let_def fst_filter_zip_col [where P = "\<lambda>r. Class r = 1"]
        get_group_zip_col [where P = "\<lambda>r. Class r = 1"])
  have keys: "map amount_band (band_agg_of ?banded) = ?ks"
    by (simp add: band_agg_of_def Let_def fst_zip_col comp_def)
  from set_fraud_exposure_agg(6) [OF ok] have "length ?ks' = length ?ks"
    by (simp add: vals band_agg_of_def fst_zip_col)
  then have same: "?ks' = ?ks"
    by (intro group_keys_subset_same_length) auto
  have "map (\<lambda>b. (amount_band b, fraud_exposure b)) bs = zip (map amount_band bs) (map fraud_exposure bs)"
    by (simp add: zip_map_same)
  also have "\<dots> = zip ?ks (map ?E ?ks)"
    using set_fraud_exposure_agg(3,5) [OF ok] by (simp add: keys vals same)
  also have "\<dots> = map (\<lambda>k. (k, ?E k)) ?ks"
    using zip_map_same [of "\<lambda>k. k" ?ks ?E] by simp
  finally have eq: "map (\<lambda>b. (amount_band b, fraud_exposure b)) bs = map (\<lambda>k. (k, ?E k)) ?ks" .
  from assms(2) have "(amount_band b, fraud_exposure b) \<in> set (map (\<lambda>b. (amount_band b, fraud_exposure b)) bs)"
    by (simp add: image_iff) blast
  then have "(amount_band b, fraud_exposure b) \<in> set (map (\<lambda>k. (k, ?E k)) ?ks)"
    by (simp only: eq)
  then obtain k where "amount_band b = k" "fraud_exposure b = ?E k"
    by (auto simp: image_iff)
  then show ?thesis by simp
qed

text \<open>
  Claim C1. The per-band fraud exposure should be 0 for a band that holds rows but none
  with label 1. On the table with amounts 5, 50, 5000, 5000, 5000 and labels 0, 0, 1, 1, 1
  the bands Micro and Low are such bands, and cell 7 stops with \<^verbatim>\<open>ValueError\<close>: the
  array of exposures has one entry and the summary three lines.
\<close>

theorem band_exposure_raises:
  "snd (cell7 (read_frame
       [\<lparr>Time = 0, V = [], Amount = 5, Class = 0\<rparr>,
        \<lparr>Time = 0, V = [], Amount = 50, Class = 0\<rparr>,
        \<lparr>Time = 0, V = [], Amount = 5000, Class = 1\<rparr>,
        \<lparr>Time = 0, V = [], Amount = 5000, Class = 1\<rparr>,
        \<lparr>Time = 0, V = [], Amount = 5000, Class = 1\<rparr>])) = Inl ValueError"
  by (simp add: run_defs)

section \<open>Properties of the class distribution\<close>

lemma map_of_sort_key:
  assumes "distinct (map fst xs)"
  shows "map_of (sort_key f xs) = map_of xs"
proof -
  from assms have "distinct (map fst (sort_key f xs))"
    by (simp add: distinct_map)
  with assms show ?thesis
    by (simp add: map_of_inject_set)
qed

lemma map_of_value_counts:
  "map_of (value_counts cs) k =
     (if k \<in> set cs then Some (length (filter (\<lambda>c. c = k) cs)) else None)"
proof -
  let ?h = "\<lambda>k. (k, length (filter (\<lambda>c. c = k) cs))"
  have "distinct (map fst (map ?h (remdups cs)))"
    by (simp add: comp_def)
  then have "map_of (value_counts cs) = map_of (map ?h (remdups cs))"
    unfolding value_counts_def by (rule map_of_sort_key)
  then show ?thesis
    by (simp add: map_of_map_restrict restrict_map_def)
qed

lemma map_of_map_values:
  "map_of (map (\<lambda>kc. (fst kc, g (snd kc))) xs) k = map_option g (map_of xs k)"
  by (induction xs) auto

lemma series_get_value_counts:
  "series_get (value_counts cs) k =
     (if k \<in> set cs then Inr (length (filter (\<lambda>c. c = k) cs)) else Inl (KeyError k))"
  by (simp add: series_get_def map_of_value_counts)

lemma series_get_scaled:
  "series_get (map (\<lambda>kc. (fst kc, g (snd kc))) (value_counts cs)) k =
     (if k \<in> set cs then Inr (g (length (filter (\<lambda>c. c = k) cs))) else Inl (KeyError k))"
  by (simp add: series_get_def map_of_map_values map_of_value_counts)

text \<open>
  Claim C2, as the script has it. When both labels occur, the summary gives for each label
  the number of its rows and their share of the table in percent, rounded to 4 places.
  When label 0 does not occur the lookup \<^verbatim>\<open>fraud_counts[0]\<close> raises \<^verbatim>\<open>KeyError\<close>, and
  when only label 1 is missing \<^verbatim>\<open>fraud_counts[1]\<close> does; no count or percentage of 0 is
  reported for the missing label.
\<close>

theorem fraud_summary_cases:
  "fraud_summary df =
     (if 0 \<notin> Class ` set (df_rows df) then Inl (KeyError 0)
      else if 1 \<notin> Class ` set (df_rows df) then Inl (KeyError 1)
      else Inr [\<lparr>transaction_type = ''Legitimate'',
                 count_col = length (filter (\<lambda>r. Class r = 0) (df_rows df)),
                 percentage = round_dp 4 (real (length (filter (\<lambda>r. Class r = 0) (df_rows df)))
                                            / real (length (df_rows df)) * 100)\<rparr>,
                \<lparr>transaction_type = ''Fraudulent'',
                 count_col = length (filter (\<lambda>r. Class r = 1) (df_rows df)),
                 percentage = round_dp 4 (real (length (filter (\<lambda>r. Class r = 1) (df_rows df)))
                                            / real (length (df_rows df)) * 100)\<rparr>])"
proof -
  let ?cs = "map Class (df_rows df)"
  let ?g = "\<lambda>c. real c / real (length (df_rows df)) * 100"
  have counts: "series_get (value_counts ?cs) k =
      (if k \<in> Class ` set (df_rows df) then Inr (length (filter (\<lambda>r. Class r = k) (df_rows df)))
       else Inl (KeyError k))" for k
    by (simp add: series_get_value_counts comp_def)
  have pct: "series_get (map (\<lambda>kc. (fst kc, ?g (snd kc))) (value_counts ?cs)) k =
      (if k \<in> Class ` set (df_rows df) then Inr (?g (length (filter (\<lambda>r. Class r = k) (df_rows df))))
       else Inl (KeyError k))" for k
    using series_get_scaled [of ?g ?cs k] by (simp add: comp_def)
  show ?thesis
    unfolding fraud_summary_def Let_def counts pct by simp
qed

theorem fraud_summary_cases_witness:
  "fraud_summary (read_frame
       [\<lparr>Time = 0, V = [], Amount = 5, Class = 0\<rparr>,
        \<lparr>Time = 60, V = [], Amount = 7, Class = 0\<rparr>,
        \<lparr>Time = 3600, V = [], Amount = 50, Class = 1\<rparr>])
   = Inr [\<lparr>transaction_type = ''Legitimate'', count_col = 2, percentage = 666667 / 10000\<rparr>,
          \<lparr>transaction_type = ''Fraudulent'', count_col = 1, percentage = 333333 / 10000\<rparr>]"
  using fraud_summary_cases [of "read_frame
       [\<lparr>Time = 0, V = [], Amount = 5, Class = 0\<rparr>,
        \<lparr>Time = 60, V = [], Amount = 7, Class = 0\<rparr>,
        \<lparr>Time = 3600, V = [], Amount = 50, Class = 1\<rparr>]"]
  by (simp add: read_frame_def round_dp_def rint_def Let_def)

text \<open>
  Claim C2 as stated fails: on a table with two rows of label 0 and none of label 1 the
  summary is not a table with count 0 and 0 percent for label 1, it is a \<^verbatim>\<open>KeyError\<close>.
\<close>

theorem fraud_summary_absent_label:
  "fraud_summary (read_frame
       [\<lparr>Time = 0, V = [], Amount = 5, Class = 0\<rparr>,
        \<lparr>Time = 60, V = [], Amount = 7, Class = 0\<rparr>]) = Inl (KeyError 1)"
  by (simp add: run_defs)

section \<open>Properties of the hourly view\<close>

lemma group_keys_two:
  assumes "set ks = {a, b}" "a < b"
  shows "group_keys ks = [a, b]"
proof -
  have "set (group_keys ks) = set [a, b]" using assms(1) by simp
  moreover have "sorted [a, b]" "distinct [a, b]" using assms(2) by simp_all
  ultimately show ?thesis
    by (intro sorted_distinct_set_unique) simp_all
qed

lemma group_keys_one: "set ks = {a} \<Longrightarrow> group_keys ks = [a]"
proof -
  assume "set ks = {a}"
  then have "set (group_keys ks) = set [a]" by simp
  then show ?thesis
    by (intro sorted_distinct_set_unique) simp_all
qed

lemma group_keys_strict: "sorted_wrt (<) (group_keys ks)"
  by (simp add: strict_sorted_iff)

lemma class_col_zip: "map (\<lambda>kx. Class (snd kx)) (zip (map g rows) rows) = map Class rows"
  by (induction rows) simp_all

lemma class_set_binary:
  assumes "\<forall>r \<in> set rows. Class r = 0 \<or> Class r = 1"
    and "\<exists>r \<in> set rows. Class r = 0" and "\<exists>r \<in> set rows. Class r = 1"
  shows "set (map Class rows) = {0, 1}"
  using assms by (auto simp: image_iff)

text \<open>The hourly table when the labels that occur are exactly 0 and 1.\<close>

lemma hourly_of_binary:
  assumes "set (map Class rows) = {0, 1}"
  shows "hourly_of (zip (map g rows) rows) =
     Inr (map (\<lambda>h. \<lparr>hour = h,
                     legitimate = length (filter (\<lambda>r. g r = h \<and> Class r = 0) rows),
                     fraudulent = length (filter (\<lambda>r. g r = h \<and> Class r = 1) rows),
                     fraud_rate = round_dp 4
                       (real (length (filter (\<lambda>r. g r = h \<and> Class r = 1) rows))
                        / (real (length (filter (\<lambda>r. g r = h \<and> Class r = 0) rows))
                           + real (length (filter (\<lambda>r. g r = h \<and> Class r = 1) rows))) * 100)\<rparr>)
              (group_keys (map g rows)))"
proof -
  have keys: "group_keys (map (\<lambda>kx. Class (snd kx)) (zip (map g rows) rows)) = [0, 1]"
    using assms by (simp only: class_col_zip) (rule group_keys_two, simp_all)
  have grp: "filter (\<lambda>r. Class r = c) (get_group h (zip (map g rows) rows))
      = filter (\<lambda>r. g r = h \<and> Class r = c) rows" for h c
    by (simp add: get_group_zip_col_all conj_commute)
  show ?thesis
    unfolding hourly_of_def keys by (simp add: Let_def grp fst_zip_col)
qed

text \<open>With a single label in the table the renaming of the columns raises.\<close>

lemma hourly_of_single_class:
  assumes "set (map Class rows) = {c}"
  shows "hourly_of (zip (map g rows) rows) = Inl ValueError"
proof -
  have "group_keys (map (\<lambda>kx. Class (snd kx)) (zip (map g rows) rows)) = [c]"
    using assms by (simp only: class_col_zip) (rule group_keys_one)
  then show ?thesis by (simp add: hourly_of_def)
qed

text \<open>
  Claim C3, as the script has it. On a table with labels 0 and 1 that both occur, the
  hourly view has one entry for each hour in which a transaction falls, in ascending order
  of the hour, and none for the other hours. Each entry's hour is between 0 and 23, its
  counts are the numbers of rows of that hour with label 0 and with label 1, their sum is
  positive, and its fraud rate is the share of the fraudulent ones in percent, rounded to
  4 places. So no entry has two zero counts, and no quotient by zero is formed.
\<close>

theorem hourly_occupied_hours:
  assumes "\<forall>r \<in> set (df_rows df). Class r = 0 \<or> Class r = 1"
    and "\<exists>r \<in> set (df_rows df). Class r = 0"
    and "\<exists>r \<in> set (df_rows df). Class r = 1"
  shows "\<exists>hs. snd (cell8 df) = Inr hs
      \<and> sorted_wrt (<) (map hour hs)
      \<and> set (map hour hs) = (\<lambda>r. hour_of_day (Time r)) ` set (df_rows df)
      \<and> (\<forall>e \<in> set hs.
            0 \<le> hour e \<and> hour e \<le> 23
          \<and> legitimate e = length (filter (\<lambda>r. hour_of_day (Time r) = hour e \<and> Class r = 0) (df_rows df))
          \<and> fraudulent e = length (filter (\<lambda>r. hour_of_day (Time r) = hour e \<and> Class r = 1) (df_rows df))
          \<and> 0 < legitimate e + fraudulent e
          \<and> fraud_rate e = round_dp 4 (real (fraudulent e) / (real (legitimate e) + real (fraudulent e)) * 100))"
proof -
  let ?rows = "df_rows df"
  let ?g = "\<lambda>r. hour_of_day (Time r)"
  let ?L = "\<lambda>h. length (filter (\<lambda>r. ?g r = h \<and> Class r = 0) ?rows)"
  let ?F = "\<lambda>h. length (filter (\<lambda>r. ?g r = h \<and> Class r = 1) ?rows)"
  let ?row = "\<lambda>h. \<lparr>hour = h, legitimate = ?L h, fraudulent = ?F h,
                    fraud_rate = round_dp 4 (real (?F h) / (real (?L h) + real (?F h)) * 100)\<rparr>"
  let ?hs = "map ?row (group_keys (map ?g ?rows))"
  have cls: "set (map Class ?rows) = {0, 1}"
    using assms by (rule class_set_binary)
  have res: "snd (cell8 df) = Inr ?hs"
    using hourly_of_binary [OF cls, of ?g]
    by (simp add: cell8_def Let_def hour_of_day_col_def)
  have hours: "map hour ?hs = group_keys (map ?g ?rows)"
    by (simp add: comp_def)
  have srt: "sorted_wrt (<) (map hour ?hs)"
    by (simp only: hours group_keys_strict)
  have st: "set (map hour ?hs) = ?g ` set ?rows"
    by (simp only: hours group_keys_set set_map)
  have each: "0 \<le> hour e \<and> hour e \<le> 23
          \<and> legitimate e = ?L (hour e) \<and> fraudulent e = ?F (hour e)
          \<and> 0 < legitimate e + fraudulent e
          \<and> fraud_rate e = round_dp 4 (real (fraudulent e) / (real (legitimate e) + real (fraudulent e)) * 100)"
    if "e \<in> set ?hs" for e
  proof -
    from that obtain h where h: "h \<in> ?g ` set ?rows" and e: "e = ?row h"
      by auto
    from h obtain r where r: "r \<in> set ?rows" "?g r = h" by blast
    from r(1) assms(1) have bin: "Class r = 0 \<or> Class r = 1" by blast
    have "0 < ?L h" if "Class r = 0"
      by (rule length_pos_if_in_set [of r]) (simp add: r that)
    moreover have "0 < ?F h" if "Class r = 1"
      by (rule length_pos_if_in_set [of r]) (simp add: r that)
    ultimately have "0 < ?L h \<or> 0 < ?F h"
      using bin by blast
    then have pos: "0 < ?L h + ?F h" by linarith
    have rng: "0 \<le> h \<and> h \<le> 23"
      using r(2) hour_of_day_bounds [of "Time r"] by simp
    show ?thesis using pos rng by (simp add: e)
  qed
  have all: "\<forall>e \<in> set ?hs.
            0 \<le> hour e \<and> hour e \<le> 23
          \<and> legitimate e = ?L (hour e) \<and> fraudulent e = ?F (hour e)
          \<and> 0 < legitimate e + fraudulent e
          \<and> fraud_rate e = round_dp 4 (real (fraudulent e) / (real (legitimate e) + real (fraudulent e)) * 100)"
    by (intro ballI each)
  show ?thesis
    by (rule exI [of _ ?hs]) (intro conjI res srt st all)
qed

lemma cell8_single_class:
  assumes "\<forall>r \<in> set (df_rows df). Class r = c" "df_rows df \<noteq> []"
  shows "snd (cell8 df) = Inl ValueError"
proof -
  from assms have "set (map Class (df_rows df)) = {c}"
    by (cases "df_rows df") auto
  from hourly_of_single_class [OF this] show ?thesis
    by (simp add: cell8_def Let_def hour_of_day_col_def)
qed

theorem hourly_occupied_hours_witness:
  "snd (cell8 (read_frame
       [\<lparr>Time = 0, V = [], Amount = 5, Class = 1\<rparr>,
        \<lparr>Time = 60, V = [], Amount = 7, Class = 0\<rparr>,
        \<lparr>Time = 93600, V = [], Amount = 50, Class = 0\<rparr>]))
   = Inr [\<lparr>hour = 0, legitimate = 1, fraudulent = 1, fraud_rate = 50\<rparr>,
          \<lparr>hour = 2, legitimate = 1, fraudulent = 0, fraud_rate = 0\<rparr>]"
  using hourly_occupied_hours [of "read_frame
       [\<lparr>Time = 0, V = [], Amount = 5, Class = 1\<rparr>,
        \<lparr>Time = 60, V = [], Amount = 7, Class = 0\<rparr>,
        \<lparr>Time = 93600, V = [], Amount = 50, Class = 0\<rparr>]"]
  by (simp add: run_defs)

text \<open>
  Claim C3 as stated fails: with one row in hour 0 and one in hour 2 the hourly view has
  the two entries for the hours 0 and 2, not 24 entries; the hours 1 and 3 to 23 are
  not listed.
\<close>

theorem hourly_missing_hours:
  "snd (cell8 (read_frame
       [\<lparr>Time = 0, V = [], Amount = 5, Class = 0\<rparr>,
        \<lparr>Time = 7200, V = [], Amount = 7, Class = 1\<rparr>]))
   = Inr [\<lparr>hour = 0, legitimate = 1, fraudulent = 0, fraud_rate = 0\<rparr>,
          \<lparr>hour = 2, legitimate = 0, fraudulent = 1, fraud_rate = 100\<rparr>]"
  by (simp add: run_defs)

section \<open>Properties of the executive summary\<close>

lemma argmax_from_spec:
  assumes "best < length pre" "pre ! best = m" "\<forall>k < length pre. pre ! k \<le> m"
    and "\<forall>k < best. pre ! k < m" "i = length pre"
  shows "argmax_from best m i xs < length (pre @ xs)
       \<and> (\<forall>k < length (pre @ xs). (pre @ xs) ! k \<le> (pre @ xs) ! argmax_from best m i xs)
       \<and> (\<forall>k < argmax_from best m i xs. (pre @ xs) ! k < (pre @ xs) ! argmax_from best m i xs)"
  using assms
proof (induction xs arbitrary: pre best m i)
  case Nil
  then show ?case by simp
next
  case (Cons x xs)
  let ?pre = "pre @ [x]"
  show ?case
  proof (cases "m < x")
    case True
    have 1: "length pre < length ?pre" by simp
    have 2: "?pre ! length pre = x" by simp
    have 3: "\<forall>k < length ?pre. ?pre ! k \<le> x"
    proof (intro allI impI)
      fix k assume "k < length ?pre"
      then consider "k < length pre" | "k = length pre" by fastforce
      then show "?pre ! k \<le> x"
      proof cases
        case 1
        with Cons.prems(3) have "pre ! k \<le> m" by blast
        with True 1 show ?thesis by (simp add: nth_append)
      next
        case 2
        then show ?thesis by simp
      qed
    qed
    have 4: "\<forall>k < length pre. ?pre ! k < x"
    proof (intro allI impI)
      fix k assume k: "k < length pre"
      with Cons.prems(3) have "pre ! k \<le> m" by blast
      with True k show "?pre ! k < x" by (simp add: nth_append)
    qed
    have 5: "Suc i = length ?pre" using Cons.prems(5) by simp
    from Cons.IH [OF 1 2 3 4 5] True Cons.prems(5) show ?thesis by simp
  next
    case False
    have 1: "best < length ?pre" using Cons.prems(1) by simp
    have 2: "?pre ! best = m" using Cons.prems(1,2) by (simp add: nth_append)
    have 3: "\<forall>k < length ?pre. ?pre ! k \<le> m"
    proof (intro allI impI)
      fix k assume "k < length ?pre"
      then consider "k < length pre" | "k = length pre" by fastforce
      then show "?pre ! k \<le> m"
      proof cases
        case 1
        with Cons.prems(3) show ?thesis by (simp add: nth_append)
      next
        case 2
        with False show ?thesis by simp
      qed
    qed
    have 4: "\<forall>k < best. ?pre ! k < m"
      using Cons.prems(1,4) by (simp add: nth_append)
    have 5: "Suc i = length ?pre" using Cons.prems(5) by simp
    from Cons.IH [OF 1 2 3 4 5] False show ?thesis by simp
  qed
qed

lemma idxmax_spec:
  assumes "idxmax xs = Inr i"
  shows "i < length xs \<and> (\<forall>k < length xs. xs ! k \<le> xs ! i) \<and> (\<forall>k < i. xs ! k < xs ! i)"
proof (cases xs)
  case Nil
  with assms show ?thesis by simp
next
  case (Cons x ys)
  with assms have i: "i = argmax_from 0 x 1 ys" by simp
  have "argmax_from 0 x 1 ys < length ([x] @ ys)
       \<and> (\<forall>k < length ([x] @ ys). ([x] @ ys) ! k \<le> ([x] @ ys) ! argmax_from 0 x 1 ys)
       \<and> (\<forall>k < argmax_from 0 x 1 ys. ([x] @ ys) ! k < ([x] @ ys) ! argmax_from 0 x 1 ys)"
    by (rule argmax_from_spec) simp_all
  then show ?thesis by (simp add: i Cons)
qed

text \<open>
  In a table whose rows are in strictly ascending order of a key, the row that
  \<^verbatim>\<open>idxmax\<close> picks has the least key among the rows with the greatest value.
\<close>

lemma idxmax_least_key:
  fixes key :: "'a \<Rightarrow> 'k::linorder" and val :: "'a \<Rightarrow> real"
  assumes "sorted_wrt (<) (map key rows)" "idxmax (map val rows) = Inr i"
  shows "i < length rows
       \<and> (\<forall>e \<in> set rows. val e \<le> val (rows ! i))
       \<and> (\<forall>e \<in> set rows. val e = val (rows ! i) \<longrightarrow> key (rows ! i) \<le> key e)"
proof -
  from idxmax_spec [OF assms(2)]
  have i: "i < length rows"
    and mx: "\<forall>k < length rows. val (rows ! k) \<le> val (rows ! i)"
    and fst: "\<forall>k < i. val (rows ! k) < val (rows ! i)"
    by auto
  have "val e \<le> val (rows ! i)" if "e \<in> set rows" for e
    using that mx by (auto simp: in_set_conv_nth)
  moreover have "key (rows ! i) \<le> key e" if "e \<in> set rows" "val e = val (rows ! i)" for e
  proof -
    from that(1) obtain k where k: "k < length rows" "e = rows ! k"
      by (auto simp: in_set_conv_nth)
    have "\<not> k < i" using fst that(2) k(2) by fastforce
    then consider "i = k" | "i < k" by linarith
    then show ?thesis
    proof cases
      case 1
      then show ?thesis by (simp add: k)
    next
      case 2
      with assms(1) k(1) have "map key rows ! i < map key rows ! k"
        by (intro sorted_wrt_nth_less) simp_all
      with i k show ?thesis by simp
    qed
  qed
  ultimately show ?thesis using i by blast
qed

lemma hourly_of_hours:
  "hourly_of timed = Inr hs \<Longrightarrow> map hour hs = group_keys (map fst timed)"
  by (auto simp: hourly_of_def comp_def Let_def split: list.splits)

lemma cell8_hours_sorted:
  assumes "snd (cell8 df) = Inr hs"
  shows "sorted_wrt (<) (map hour hs)"
proof -
  from assms have "hourly_of (zip (hour_of_day_col (df_rows df)) (df_rows df)) = Inr hs"
    by (simp add: cell8_def Let_def)
  from hourly_of_hours [OF this] show ?thesis
    by (simp only: group_keys_strict)
qed

lemma cell7_bands_sorted:
  assumes "snd (cell7 df) = Inr bs"
  shows "sorted_wrt (<) (map amount_band bs)"
proof -
  let ?banded = "zip (amount_band_col (df_rows df)) (df_rows df)"
  from assms have "set_fraud_exposure (band_agg_of ?banded) (fraud_exposure_values ?banded) = Inr bs"
    by (simp add: cell7_def Let_def)
  from set_fraud_exposure_agg(3) [OF this]
  have "map amount_band bs = group_keys (map fst ?banded)"
    by (simp add: band_agg_of_def Let_def comp_def)
  then show ?thesis
    by (simp only: group_keys_strict)
qed

lemma assign_risk_band_mono: "x \<le> y \<Longrightarrow> assign_risk_band x \<le> assign_risk_band y"
  by (simp add: assign_risk_band_def)

lemma cell10_picks:
  assumes "cell10 df hs bs = Inr ex"
  shows "\<exists>i j. idxmax (map fraud_rate hs) = Inr i \<and> idxmax (map fraud_rate_pct bs) = Inr j
           \<and> peak_hour ex = hour (hs ! i) \<and> highest_band ex = amount_band (bs ! j)"
  using assms by (auto simp: cell10_def Let_def split: sum.splits)

lemma then_cell_Inr:
  assumes "then_cell m k = (df', Inr y)"
  obtains df0 x where "m = (df0, Inr x)" and "k df0 x = (df', Inr y)"
  using assms by (auto simp: then_cell_def split: prod.splits sum.splits)

lemma then_cell_Inl:
  assumes "then_cell m k = (df', Inl e)"
  shows "m = (df', Inl e) \<or> (\<exists>df0 x. m = (df0, Inr x) \<and> k df0 x = (df', Inl e))"
  using assms by (auto simp: then_cell_def split: prod.splits sum.splits)

lemma cell3_frame: "fst (cell3 df) = df"
  by (simp add: cell3_def)

lemma cell4_frame: "fst (cell4 df) = df"
  by (simp add: cell4_def)

lemma cell5_frame: "fst (cell5 df) = df"
  by (simp add: cell5_def)

lemma cell6_frame: "fst (cell6 df) = df"
  by (simp add: cell6_def Let_def)

lemma cell9_frame: "fst (cell9 df) = df"
  by (simp add: cell9_def)

lemma cell10_run_frame: "fst (cell10_run df hs bs) = df"
  by (simp add: cell10_run_def)

lemma cell5_table: "snd (cell5 df) = Inr cs \<Longrightarrow> fraud_summary df = Inr cs"
  by (auto simp: cell5_def split: sum.splits)

lemma pipeline_stages:
  assumes "snd (pipeline df) = Inr rep"
  shows "\<exists>df1 df2. snd (cell7 df) = Inr (band_table rep) \<and> fst (cell7 df) = df1
           \<and> snd (cell8 df1) = Inr (hour_table rep) \<and> fst (cell8 df1) = df2
           \<and> cell10 df2 (hour_table rep) (band_table rep) = Inr (executive rep)
           \<and> fraud_summary df = Inr (class_table rep)
           \<and> fst (pipeline df) = df2
           \<and> cell5 df = (df, Inr (class_table rep))
           \<and> cell9 df2 = (df2, Inr (corr_matrix rep))"
proof -
  obtain f where p: "pipeline df = (f, Inr rep)"
    using assms by (cases "pipeline df") simp
  from p [unfolded pipeline_def] obtain d3 ds
    where c3: "cell3 df = (d3, Inr ds)"
      and r3: "then_cell (cell4 d3) (\<lambda>df au.
     then_cell (cell5 df) (\<lambda>df cs.
     then_cell (cell6 df) (\<lambda>df am.
     then_cell (cell7 df) (\<lambda>df bs.
     then_cell (cell8 df) (\<lambda>df hs.
     then_cell (cell9 df) (\<lambda>df cm.
     then_cell (cell10_run df hs bs) (\<lambda>df ex.
       (df, Inr \<lparr>describe_table = ds, audit_result = au, class_table = cs, amount_stats = am,
                 band_table = bs, hour_table = hs, corr_matrix = cm, executive = ex\<rparr>)))))))) = (f, Inr rep)"
    by (rule then_cell_Inr)
  from c3 cell3_frame [of df] have d3: "d3 = df" by simp
  from r3 obtain d4 au
    where c4: "cell4 d3 = (d4, Inr au)"
      and r4: "then_cell (cell5 d4) (\<lambda>df cs.
     then_cell (cell6 df) (\<lambda>df am.
     then_cell (cell7 df) (\<lambda>df bs.
     then_cell (cell8 df) (\<lambda>df hs.
     then_cell (cell9 df) (\<lambda>df cm.
     then_cell (cell10_run df hs bs) (\<lambda>df ex.
       (df, Inr \<lparr>describe_table = ds, audit_result = au, class_table = cs, amount_stats = am,
                 band_table = bs, hour_table = hs, corr_matrix = cm, executive = ex\<rparr>))))))) = (f, Inr rep)"
    by (rule then_cell_Inr)
  from c4 cell4_frame [of d3] d3 have d4: "d4 = df" by simp
  from r4 obtain d5 cs
    where c5: "cell5 d4 = (d5, Inr cs)"
      and r5: "then_cell (cell6 d5) (\<lambda>df am.
     then_cell (cell7 df) (\<lambda>df bs.
     then_cell (cell8 df) (\<lambda>df hs.
     then_cell (cell9 df) (\<lambda>df cm.
     then_cell (cell10_run df hs bs) (\<lambda>df ex.
       (df, Inr \<lparr>describe_table = ds, audit_result = au, class_table = cs, amount_stats = am,
                 band_table = bs, hour_table = hs, corr_matrix = cm, executive = ex\<rparr>)))))) = (f, Inr rep)"
    by (rule then_cell_Inr)
  from c5 cell5_frame [of d4] d4 have d5: "d5 = df" by simp
  from c5 d4 have fs: "fraud_summary df = Inr cs" by (intro cell5_table) simp
  from r5 obtain d6 am
    where c6: "cell6 d5 = (d6, Inr am)"
      and r6: "then_cell (cell7 d6) (\<lambda>df bs.
     then_cell (cell8 df) (\<lambda>df hs.
     then_cell (cell9 df) (\<lambda>df cm.
     then_cell (cell10_run df hs bs) (\<lambda>df ex.
       (df, Inr \<lparr>describe_table = ds, audit_result = au, class_table = cs, amount_stats = am,
                 band_table = bs, hour_table = hs, corr_matrix = cm, executive = ex\<rparr>))))) = (f, Inr rep)"
    by (rule then_cell_Inr)
  from c6 cell6_frame [of d5] d5 have d6: "d6 = df" by simp
  from r6 obtain d7 bs
    where c7: "cell7 d6 = (d7, Inr bs)"
      and r7: "then_cell (cell8 d7) (\<lambda>df hs.
     then_cell (cell9 df) (\<lambda>df cm.
     then_cell (cell10_run df hs bs) (\<lambda>df ex.
       (df, Inr \<lparr>describe_table = ds, audit_result = au, class_table = cs, amount_stats = am,
                 band_table = bs, hour_table = hs, corr_matrix = cm, executive = ex\<rparr>)))) = (f, Inr rep)"
    by (rule then_cell_Inr)
  from r7 obtain d8 hs
    where c8: "cell8 d7 = (d8, Inr hs)"
      and r8: "then_cell (cell9 d8) (\<lambda>df cm.
     then_cell (cell10_run df hs bs) (\<lambda>df ex.
       (df, Inr \<lparr>describe_table = ds, audit_result = au, class_table = cs, amount_stats = am,
                 band_table = bs, hour_table = hs, corr_matrix = cm, executive = ex\<rparr>))) = (f, Inr rep)"
    by (rule then_cell_Inr)
  from r8 obtain d9 cm
    where c9: "cell9 d8 = (d9, Inr cm)"
      and r9: "then_cell (cell10_run d9 hs bs) (\<lambda>df ex.
       (df, Inr \<lparr>describe_table = ds, audit_result = au, class_table = cs, amount_stats = am,
                 band_table = bs, hour_table = hs, corr_matrix = cm, executive = ex\<rparr>)) = (f, Inr rep)"
    by (rule then_cell_Inr)
  from c9 cell9_frame [of d8] have d9: "d9 = d8" by simp
  from r9 obtain d10 ex
    where c10: "cell10_run d9 hs bs = (d10, Inr ex)"
      and r10: "(d10, Inr \<lparr>describe_table = ds, audit_result = au, class_table = cs, amount_stats = am,
                 band_table = bs, hour_table = hs, corr_matrix = cm, executive = ex\<rparr>) = (f, Inr rep)"
    by (rule then_cell_Inr) blast
  from c10 have d10: "d10 = d8" and ex: "cell10 d8 hs bs = Inr ex"
    by (auto simp: cell10_run_def d9)
  from r10 have f: "f = d10"
    and rep: "rep = \<lparr>describe_table = ds, audit_result = au, class_table = cs, amount_stats = am,
                 band_table = bs, hour_table = hs, corr_matrix = cm, executive = ex\<rparr>"
    by simp_all
  have "snd (cell7 df) = Inr (band_table rep)" using c7 d6 by (simp add: rep)
  moreover have "snd (cell8 (fst (cell7 df))) = Inr (hour_table rep)" using c7 c8 d6 by (simp add: rep)
  moreover have "cell10 (fst (cell8 (fst (cell7 df)))) (hour_table rep) (band_table rep) = Inr (executive rep)"
    using c7 c8 d6 ex by (simp add: rep)
  moreover have "fraud_summary df = Inr (class_table rep)" using fs by (simp add: rep)
  moreover have "fst (pipeline df) = fst (cell8 (fst (cell7 df)))"
    using p f d10 c7 c8 d6 by simp
  moreover have "cell5 df = (df, Inr (class_table rep))"
    using c5 d4 d5 by (simp add: rep)
  moreover have "cell9 (fst (cell8 (fst (cell7 df)))) = (fst (cell8 (fst (cell7 df))), Inr (corr_matrix rep))"
    using c7 c8 c9 d6 d9 by (simp add: rep)
  ultimately show ?thesis by blast
qed

text \<open>
  Claim C6, as the script has it. When the run reaches the executive summary, the peak
  fraud hour is the hour of an entry of the hourly view whose fraud rate is the greatest,
  and no entry with that rate has an earlier hour; the highest-risk band is the band of a
  line of the band summary whose fraud rate is the greatest, and no line with that rate
  has a smaller label. Both tables are in strictly ascending order of hour and of label,
  and the labels are ordered as the amounts are, so the first entry with the greatest
  rate is taken in both. The tables hold the hours and bands in which a row falls.
\<close>

theorem executive_first_maximum:
  assumes "snd (pipeline df) = Inr rep"
  shows "(\<exists>e \<in> set (hour_table rep). peak_hour (executive rep) = hour e
            \<and> (\<forall>e' \<in> set (hour_table rep). fraud_rate e' \<le> fraud_rate e)
            \<and> (\<forall>e' \<in> set (hour_table rep). fraud_rate e' = fraud_rate e \<longrightarrow> hour e \<le> hour e'))
       \<and> (\<exists>b \<in> set (band_table rep). highest_band (executive rep) = amount_band b
            \<and> (\<forall>b' \<in> set (band_table rep). fraud_rate_pct b' \<le> fraud_rate_pct b)
            \<and> (\<forall>b' \<in> set (band_table rep). fraud_rate_pct b' = fraud_rate_pct b
                   \<longrightarrow> amount_band b \<le> amount_band b'))
       \<and> sorted_wrt (<) (map hour (hour_table rep))
       \<and> sorted_wrt (<) (map amount_band (band_table rep))
       \<and> (\<forall>x y. x \<le> y \<longrightarrow> assign_risk_band x \<le> assign_risk_band y)"
proof -
  let ?hs = "hour_table rep" and ?bs = "band_table rep" and ?ex = "executive rep"
  from pipeline_stages [OF assms] obtain df1 df2
    where c7: "snd (cell7 df) = Inr ?bs" and c8: "snd (cell8 df1) = Inr ?hs"
      and c10: "cell10 df2 ?hs ?bs = Inr ?ex"
    by blast
  from cell10_picks [OF c10] obtain i j
    where i: "idxmax (map fraud_rate ?hs) = Inr i" and j: "idxmax (map fraud_rate_pct ?bs) = Inr j"
      and ph: "peak_hour ?ex = hour (?hs ! i)" and hb: "highest_band ?ex = amount_band (?bs ! j)"
    by blast
  have hs_sorted: "sorted_wrt (<) (map hour ?hs)" by (rule cell8_hours_sorted [OF c8])
  have bs_sorted: "sorted_wrt (<) (map amount_band ?bs)" by (rule cell7_bands_sorted [OF c7])
  from idxmax_least_key [OF hs_sorted i]
  have hour_part: "\<exists>e \<in> set ?hs. peak_hour ?ex = hour e
            \<and> (\<forall>e' \<in> set ?hs. fraud_rate e' \<le> fraud_rate e)
            \<and> (\<forall>e' \<in> set ?hs. fraud_rate e' = fraud_rate e \<longrightarrow> hour e \<le> hour e')"
    by (intro bexI [of _ "?hs ! i"]) (simp_all add: ph)
  from idxmax_least_key [OF bs_sorted j]
  have band_part: "\<exists>b \<in> set ?bs. highest_band ?ex = amount_band b
            \<and> (\<forall>b' \<in> set ?bs. fraud_rate_pct b' \<le> fraud_rate_pct b)
            \<and> (\<forall>b' \<in> set ?bs. fraud_rate_pct b' = fraud_rate_pct b \<longrightarrow> amount_band b \<le> amount_band b')"
    by (intro bexI [of _ "?bs ! j"]) (simp_all add: hb)
  have mono: "\<forall>x y. x \<le> y \<longrightarrow> assign_risk_band x \<le> assign_risk_band y"
    by (simp add: assign_risk_band_mono)
  show ?thesis
    by (intro conjI hour_part band_part hs_sorted bs_sorted mono)
qed

theorem executive_first_maximum_witness:
  "(case snd (pipeline (read_frame
       [\<lparr>Time = 0, V = [0, 0, 0, 0, 0, 0, 0, 0, 0, 0], Amount = 5, Class = 1\<rparr>,
        \<lparr>Time = 60, V = [0, 0, 0, 0, 0, 0, 0, 0, 0, 0], Amount = 7, Class = 0\<rparr>,
        \<lparr>Time = 3600, V = [0, 0, 0, 0, 0, 0, 0, 0, 0, 0], Amount = 50, Class = 1\<rparr>,
        \<lparr>Time = 7200, V = [0, 0, 0, 0, 0, 0, 0, 0, 0, 0], Amount = 200, Class = 1\<rparr>])) of
      Inl e \<Rightarrow> False
    | Inr rep \<Rightarrow> peak_hour (executive rep) = 1 \<and> highest_band (executive rep) = ''2. Low ($10-$99)''
        \<and> map fraud_rate (hour_table rep) = [50, 100, 100]
        \<and> map fraud_rate_pct (band_table rep) = [50, 100, 100])"
  using executive_first_maximum [of "read_frame
       [\<lparr>Time = 0, V = [0, 0, 0, 0, 0, 0, 0, 0, 0, 0], Amount = 5, Class = 1\<rparr>,
        \<lparr>Time = 60, V = [0, 0, 0, 0, 0, 0, 0, 0, 0, 0], Amount = 7, Class = 0\<rparr>,
        \<lparr>Time = 3600, V = [0, 0, 0, 0, 0, 0, 0, 0, 0, 0], Amount = 50, Class = 1\<rparr>,
        \<lparr>Time = 7200, V = [0, 0, 0, 0, 0, 0, 0, 0, 0, 0], Amount = 200, Class = 1\<rparr>]"]
  by (simp add: run_defs)

text \<open>
  Claim C6 as stated fails in its last part: on a table whose labels are all 0 the run
  does not report hour 0 as the peak fraud hour. It ends in cell 5 with \<^verbatim>\<open>KeyError\<close>,
  and cell 8 taken alone ends with \<^verbatim>\<open>ValueError\<close>, so there is no hourly view to take a
  peak of.
\<close>

theorem peak_hour_all_legitimate:
  "snd (pipeline (read_frame
       [\<lparr>Time = 0, V = [], Amount = 5, Class = 0\<rparr>,
        \<lparr>Time = 3600, V = [], Amount = 50, Class = 0\<rparr>])) = Inl (KeyError 1)
   \<and> snd (cell8 (read_frame
       [\<lparr>Time = 0, V = [], Amount = 5, Class = 0\<rparr>,
        \<lparr>Time = 3600, V = [], Amount = 50, Class = 0\<rparr>])) = Inl ValueError"
  by (simp add: run_defs)

section \<open>The data frame across the run\<close>

lemma cell7_frame: "fst (cell7 df) = df\<lparr>df_amount_band := Some (amount_band_col (df_rows df))\<rparr>"
  by (simp add: cell7_def Let_def)

lemma cell8_frame: "fst (cell8 df) = df\<lparr>df_hour_of_day := Some (hour_of_day_col (df_rows df))\<rparr>"
  by (simp add: cell8_def Let_def)

lemma then_cell_fst:
  assumes "P (fst m)" and "\<And>d x. P d \<Longrightarrow> P (fst (k d x))"
  shows "P (fst (then_cell m k))"
proof (cases m)
  case (Pair d r)
  with assms(1) have d: "P d" by simp
  show ?thesis
  proof (cases r)
    case (Inl e)
    with Pair d show ?thesis by (simp add: then_cell_def)
  next
    case (Inr x)
    with Pair assms(2) [OF d, of x] show ?thesis by (simp add: then_cell_def)
  qed
qed

lemma then_cell_step: "m = (d, Inr x) \<Longrightarrow> then_cell m k = k d x"
  by (simp add: then_cell_def)

lemma pipeline_keeps:
  assumes "P df"
    and "\<And>d. P d \<Longrightarrow> P (d\<lparr>df_amount_band := Some (amount_band_col (df_rows d))\<rparr>)"
    and "\<And>d. P d \<Longrightarrow> P (d\<lparr>df_hour_of_day := Some (hour_of_day_col (df_rows d))\<rparr>)"
  shows "P (fst (pipeline df))"
  unfolding pipeline_def
proof (rule then_cell_fst)
  show "P (fst (cell3 df))" using assms(1) by (simp add: cell3_frame)
next
  fix d3 ds assume d3: "P d3"
  show "P (fst (then_cell (cell4 d3) (\<lambda>df au.
     then_cell (cell5 df) (\<lambda>df cs.
     then_cell (cell6 df) (\<lambda>df am.
     then_cell (cell7 df) (\<lambda>df bs.
     then_cell (cell8 df) (\<lambda>df hs.
     then_cell (cell9 df) (\<lambda>df cm.
     then_cell (cell10_run df hs bs) (\<lambda>df ex.
       (df, Inr \<lparr>describe_table = ds, audit_result = au, class_table = cs, amount_stats = am,
                 band_table = bs, hour_table = hs, corr_matrix = cm, executive = ex\<rparr>))))))))))"
  proof (rule then_cell_fst)
    show "P (fst (cell4 d3))" using d3 by (simp add: cell4_frame)
  next
    fix d4 au assume d4: "P d4"
    show "P (fst (then_cell (cell5 d4) (\<lambda>df cs.
     then_cell (cell6 df) (\<lambda>df am.
     then_cell (cell7 df) (\<lambda>df bs.
     then_cell (cell8 df) (\<lambda>df hs.
     then_cell (cell9 df) (\<lambda>df cm.
     then_cell (cell10_run df hs bs) (\<lambda>df ex.
       (df, Inr \<lparr>describe_table = ds, audit_result = au, class_table = cs, amount_stats = am,
                 band_table = bs, hour_table = hs, corr_matrix = cm, executive = ex\<rparr>)))))))))"
    proof (rule then_cell_fst)
      show "P (fst (cell5 d4))" using d4 by (simp add: cell5_frame)
    next
      fix d5 cs assume d5: "P d5"
      show "P (fst (then_cell (cell6 d5) (\<lambda>df am.
     then_cell (cell7 df) (\<lambda>df bs.
     then_cell (cell8 df) (\<lambda>df hs.
     then_cell (cell9 df) (\<lambda>df cm.
     then_cell (cell10_run df hs bs) (\<lambda>df ex.
       (df, Inr \<lparr>describe_table = ds, audit_result = au, class_table = cs, amount_stats = am,
                 band_table = bs, hour_table = hs, corr_matrix = cm, executive = ex\<rparr>))))))))"
      proof (rule then_cell_fst)
        show "P (fst (cell6 d5))" using d5 by (simp add: cell6_frame)
      next
        fix d6 am assume d6: "P d6"
        show "P (fst (then_cell (cell7 d6) (\<lambda>df bs.
     then_cell (cell8 df) (\<lambda>df hs.
     then_cell (cell9 df) (\<lambda>df cm.
     then_cell (cell10_run df hs bs) (\<lambda>df ex.
       (df, Inr \<lparr>describe_table = ds, audit_result = au, class_table = cs, amount_stats = am,
                 band_table = bs, hour_table = hs, corr_matrix = cm, executive = ex\<rparr>)))))))"
        proof (rule then_cell_fst)
          show "P (fst (cell7 d6))" using assms(2) [OF d6] by (simp add: cell7_frame)
        next
          fix d7 bs assume d7: "P d7"
          show "P (fst (then_cell (cell8 d7) (\<lambda>df hs.
     then_cell (cell9 df) (\<lambda>df cm.
     then_cell (cell10_run df hs bs) (\<lambda>df ex.
       (df, Inr \<lparr>describe_table = ds, audit_result = au, class_table = cs, amount_stats = am,
                 band_table = bs, hour_table = hs, corr_matrix = cm, executive = ex\<rparr>))))))"
          proof (rule then_cell_fst)
            show "P (fst (cell8 d7))" using assms(3) [OF d7] by (simp add: cell8_frame)
          next
            fix d8 hs assume d8: "P d8"
            show "P (fst (then_cell (cell9 d8) (\<lambda>df cm.
     then_cell (cell10_run df hs bs) (\<lambda>df ex.
       (df, Inr \<lparr>describe_table = ds, audit_result = au, class_table = cs, amount_stats = am,
                 band_table = bs, hour_table = hs, corr_matrix = cm, executive = ex\<rparr>)))))"
            proof (rule then_cell_fst)
              show "P (fst (cell9 d8))" using d8 by (simp add: cell9_frame)
            next
              fix d9 cm assume d9: "P d9"
              show "P (fst (then_cell (cell10_run d9 hs bs) (\<lambda>df ex.
       (df, Inr \<lparr>describe_table = ds, audit_result = au, class_table = cs, amount_stats = am,
                 band_table = bs, hour_table = hs, corr_matrix = cm, executive = ex\<rparr>))))"
              proof (rule then_cell_fst)
                show "P (fst (cell10_run d9 hs bs))" using d9 by (simp add: cell10_run_frame)
              next
                fix d10 ex assume "P d10"
                then show "P (fst (d10, Inr \<lparr>describe_table = ds, audit_result = au, class_table = cs,
                    amount_stats = am, band_table = bs, hour_table = hs, corr_matrix = cm,
                    executive = ex\<rparr>))"
                  by simp
              qed
            qed
          qed
        qed
      qed
    qed
  qed
qed

lemma group_keys_empty: "group_keys ks = [] \<longleftrightarrow> ks = []"
proof -
  have "group_keys ks = [] \<longleftrightarrow> set (group_keys ks) = {}"
    by (rule set_empty [symmetric])
  also have "\<dots> \<longleftrightarrow> set ks = {}" by (simp only: group_keys_set)
  also have "\<dots> \<longleftrightarrow> ks = []" by (rule set_empty)
  finally show ?thesis .
qed

lemma value_counts_length: "length (value_counts cs) = card (set cs)"
  by (simp add: value_counts_def length_remdups_card_conv)

lemma fraud_summary_finishes:
  "(\<exists>t. fraud_summary df = Inr t) \<longleftrightarrow> 0 \<in> Class ` set (df_rows df) \<and> 1 \<in> Class ` set (df_rows df)"
proof -
  let ?cs = "map Class (df_rows df)"
  let ?g = "\<lambda>c. real c / real (length (df_rows df)) * 100"
  have counts: "series_get (value_counts ?cs) k =
      (if k \<in> Class ` set (df_rows df) then Inr (length (filter (\<lambda>c. c = k) ?cs)) else Inl (KeyError k))" for k
    by (simp add: series_get_value_counts)
  have pct: "series_get (map (\<lambda>kc. (fst kc, ?g (snd kc))) (value_counts ?cs)) k =
      (if k \<in> Class ` set (df_rows df) then Inr (?g (length (filter (\<lambda>c. c = k) ?cs)))
       else Inl (KeyError k))" for k
    using series_get_scaled [of ?g ?cs k] by simp
  show ?thesis
    unfolding fraud_summary_def Let_def counts pct by simp
qed

lemma cell5_finishes:
  "(\<exists>cs. cell5 df = (df, Inr cs)) \<longleftrightarrow> Class ` set (df_rows df) = {0, 1}"
proof -
  have two: "Class ` set (df_rows df) = {0, 1} \<longleftrightarrow>
      0 \<in> Class ` set (df_rows df) \<and> 1 \<in> Class ` set (df_rows df) \<and> card (Class ` set (df_rows df)) = 2"
  proof
    assume "Class ` set (df_rows df) = {0, 1}"
    then show "0 \<in> Class ` set (df_rows df) \<and> 1 \<in> Class ` set (df_rows df)
        \<and> card (Class ` set (df_rows df)) = 2"
      by simp
  next
    assume a: "0 \<in> Class ` set (df_rows df) \<and> 1 \<in> Class ` set (df_rows df)
        \<and> card (Class ` set (df_rows df)) = 2"
    then have "{0, 1} \<subseteq> Class ` set (df_rows df)" by simp
    moreover have "card {0, 1 :: int} = 2" by simp
    ultimately show "Class ` set (df_rows df) = {0, 1}"
      using a by (metis card_subset_eq finite_imageI List.finite_set)
  qed
  have "(\<exists>cs. cell5 df = (df, Inr cs)) \<longleftrightarrow>
      (\<exists>t. fraud_summary df = Inr t) \<and> card (Class ` set (df_rows df)) = 2"
    by (auto simp: cell5_def class_charts_def value_counts_length split: sum.splits)
  then show ?thesis
    by (simp only: fraud_summary_finishes two) blast
qed

lemma set_fraud_exposure_cases:
  "set_fraud_exposure summary vals = Inl ValueError \<or> (\<exists>bs. set_fraud_exposure summary vals = Inr bs)"
  by (simp add: set_fraud_exposure_def)

lemma cell7_finishes:
  "(\<exists>bs. cell7 df = (df\<lparr>df_amount_band := Some (amount_band_col (df_rows df))\<rparr>, Inr bs)) \<longleftrightarrow>
     (\<forall>r \<in> set (df_rows df). \<exists>r' \<in> set (df_rows df).
         assign_risk_band (Amount r') = assign_risk_band (Amount r) \<and> Class r' = 1)"
proof -
  have "snd (cell7 df) = Inl ValueError \<or> (\<exists>bs. snd (cell7 df) = Inr bs)"
    using set_fraud_exposure_cases by (simp add: cell7_def Let_def)
  then have "(\<exists>bs. snd (cell7 df) = Inr bs) \<longleftrightarrow> snd (cell7 df) \<noteq> Inl ValueError"
    by auto
  moreover have "(\<exists>bs. cell7 df = (df\<lparr>df_amount_band := Some (amount_band_col (df_rows df))\<rparr>, Inr bs))
      \<longleftrightarrow> (\<exists>bs. snd (cell7 df) = Inr bs)"
    using cell7_frame [of df] by (cases "cell7 df") auto
  ultimately show ?thesis
    by (simp only: cell7_raises_iff) blast
qed

lemma cell7_table_nonempty:
  assumes "snd (cell7 df) = Inr bs" "df_rows df \<noteq> []"
  shows "bs \<noteq> []"
proof -
  let ?banded = "zip (amount_band_col (df_rows df)) (df_rows df)"
  from assms(1) have "set_fraud_exposure (band_agg_of ?banded) (fraud_exposure_values ?banded) = Inr bs"
    by (simp add: cell7_def Let_def)
  from set_fraud_exposure_agg(3) [OF this]
  have "map amount_band bs = group_keys (map fst ?banded)"
    by (simp add: band_agg_of_def Let_def comp_def)
  then have "set (map amount_band bs) = set (amount_band_col (df_rows df))"
    by (simp add: amount_band_col_def fst_zip_col)
  with assms(2) show ?thesis by (auto simp: amount_band_col_def)
qed

lemma cell8_finishes:
  assumes "Class ` set (df_rows df) = {0, 1}"
  shows "\<exists>hs. cell8 df = (df\<lparr>df_hour_of_day := Some (hour_of_day_col (df_rows df))\<rparr>, Inr hs) \<and> hs \<noteq> []"
proof -
  from assms have cls: "set (map Class (df_rows df)) = {0, 1}" by simp
  from assms have ne: "df_rows df \<noteq> []" by auto
  have "\<exists>hs. hourly_of (zip (hour_of_day_col (df_rows df)) (df_rows df)) = Inr hs \<and> hs \<noteq> []"
    unfolding hour_of_day_col_def hourly_of_binary [OF cls]
    using ne by (simp add: group_keys_empty)
  then show ?thesis by (auto simp: cell8_def Let_def)
qed

lemma cell8_table_classes:
  assumes "snd (cell8 df) = Inr hs"
  shows "card (Class ` set (df_rows df)) = 2"
proof -
  from assms have "hourly_of (zip (hour_of_day_col (df_rows df)) (df_rows df)) = Inr hs"
    by (simp add: cell8_def Let_def)
  then have "length (group_keys (map (\<lambda>kx. Class (snd kx)) (zip (hour_of_day_col (df_rows df)) (df_rows df)))) = 2"
    by (auto simp: hourly_of_def split: list.splits)
  then show ?thesis
    by (simp add: hour_of_day_col_def class_col_zip group_keys_length)
qed

lemma cell9_finishes:
  "(\<exists>cm. cell9 df = (df, Inr cm)) \<longleftrightarrow> (\<forall>r \<in> set (df_rows df). 10 \<le> length (V r))"
proof -
  have "(\<exists>r \<in> set (df_rows df). length (V r) < 10) \<longleftrightarrow> \<not> (\<forall>r \<in> set (df_rows df). 10 \<le> length (V r))"
    by (simp add: not_le)
  then show ?thesis by (simp add: cell9_def)
qed

lemma idxmax_finishes: "xs \<noteq> [] \<Longrightarrow> \<exists>i. idxmax xs = Inr i"
  by (cases xs) simp_all

lemma cell10_finishes:
  assumes "hs \<noteq> []" "bs \<noteq> []"
  shows "\<exists>ex. cell10 df hs bs = Inr ex"
proof -
  from assms obtain i j where "idxmax (map fraud_rate hs) = Inr i" "idxmax (map fraud_rate_pct bs) = Inr j"
    using idxmax_finishes [of "map fraud_rate hs"] idxmax_finishes [of "map fraud_rate_pct bs"] by auto
  then show ?thesis by (simp add: cell10_def Let_def)
qed

lemma pipeline_finishes_if:
  assumes cls: "Class ` set (df_rows df) = {0, 1}"
    and bands: "\<forall>r \<in> set (df_rows df). \<exists>r' \<in> set (df_rows df).
         assign_risk_band (Amount r') = assign_risk_band (Amount r) \<and> Class r' = 1"
    and feats: "\<forall>r \<in> set (df_rows df). 10 \<le> length (V r)"
  shows "\<exists>rep. snd (pipeline df) = Inr rep"
proof -
  let ?df1 = "df\<lparr>df_amount_band := Some (amount_band_col (df_rows df))\<rparr>"
  let ?df2 = "?df1\<lparr>df_hour_of_day := Some (hour_of_day_col (df_rows df))\<rparr>"
  from cls have ne: "df_rows df \<noteq> []" by auto
  obtain ds where c3: "cell3 df = (df, Inr ds)" by (simp add: cell3_def)
  obtain au where c4: "cell4 df = (df, Inr au)" by (simp add: cell4_def)
  from cls obtain cs where c5: "cell5 df = (df, Inr cs)"
    using cell5_finishes [of df] by blast
  obtain am where c6: "cell6 df = (df, Inr am)" by (simp add: cell6_def Let_def)
  from bands obtain bs where c7: "cell7 df = (?df1, Inr bs)"
    using cell7_finishes [of df] by blast
  from c7 ne have bs: "bs \<noteq> []"
    by (intro cell7_table_nonempty [of df]) simp_all
  from cls have "Class ` set (df_rows ?df1) = {0, 1}" by simp
  from cell8_finishes [OF this] obtain hs where c8: "cell8 ?df1 = (?df2, Inr hs)" and hs: "hs \<noteq> []"
    by auto
  from feats have "\<forall>r \<in> set (df_rows ?df2). 10 \<le> length (V r)" by simp
  then obtain cm where c9: "cell9 ?df2 = (?df2, Inr cm)"
    using cell9_finishes [of ?df2] by blast
  from cell10_finishes [OF hs bs] obtain ex where "cell10 ?df2 hs bs = Inr ex" by blast
  then have c10: "cell10_run ?df2 hs bs = (?df2, Inr ex)" by (simp add: cell10_run_def)
  have "pipeline df = (?df2, Inr \<lparr>describe_table = ds, audit_result = au, class_table = cs,
      amount_stats = am, band_table = bs, hour_table = hs, corr_matrix = cm, executive = ex\<rparr>)"
    unfolding pipeline_def
    by (simp only: then_cell_step [OF c3] then_cell_step [OF c4] then_cell_step [OF c5]
        then_cell_step [OF c6] then_cell_step [OF c7] then_cell_step [OF c8]
        then_cell_step [OF c9] then_cell_step [OF c10])
  then show ?thesis by simp
qed

lemma pipeline_finishes_only_if:
  assumes "snd (pipeline df) = Inr rep"
  shows "Class ` set (df_rows df) = {0, 1}
      \<and> (\<forall>r \<in> set (df_rows df). \<exists>r' \<in> set (df_rows df).
            assign_risk_band (Amount r') = assign_risk_band (Amount r) \<and> Class r' = 1)
      \<and> (\<forall>r \<in> set (df_rows df). 10 \<le> length (V r))"
proof -
  from pipeline_stages [OF assms] obtain df1 df2
    where c7: "snd (cell7 df) = Inr (band_table rep)" and f7: "fst (cell7 df) = df1"
      and f8: "fst (cell8 df1) = df2"
      and c5: "cell5 df = (df, Inr (class_table rep))"
      and c9: "cell9 df2 = (df2, Inr (corr_matrix rep))"
    by blast
  from c5 have cls: "Class ` set (df_rows df) = {0, 1}"
    using cell5_finishes [of df] by blast
  from c7 f7 have "cell7 df = (df\<lparr>df_amount_band := Some (amount_band_col (df_rows df))\<rparr>, Inr (band_table rep))"
    using cell7_frame [of df] by (cases "cell7 df") simp
  then have bands: "\<forall>r \<in> set (df_rows df). \<exists>r' \<in> set (df_rows df).
            assign_risk_band (Amount r') = assign_risk_band (Amount r) \<and> Class r' = 1"
    using cell7_finishes [of df] by blast
  have rows: "df_rows df2 = df_rows df"
    using f7 f8 cell7_frame [of df] cell8_frame [of df1] by auto
  from c9 have "\<forall>r \<in> set (df_rows df2). 10 \<le> length (V r)"
    using cell9_finishes [of df2] by blast
  with rows have feats: "\<forall>r \<in> set (df_rows df). 10 \<le> length (V r)" by simp
  from cls bands feats show ?thesis by blast
qed

text \<open>
  Claim C9. Every cell takes the data frame and hands it on. Wherever the run ends, the
  loaded rows of the frame (every loaded column, in file order) are the ones it started
  with, the column \<^verbatim>\<open>amount_band\<close> is as it was or holds the band of each row's amount,
  and the column \<^verbatim>\<open>hour_of_day\<close> is as it was or holds the hour of each row's time. The
  run gets through all cells exactly when the labels that occur are 0 and 1, every band
  that holds a row holds a row with label 1, and the columns \<^verbatim>\<open>V1\<close> to \<^verbatim>\<open>V10\<close> are
  there; then both derived columns are attached and nothing else has changed.
\<close>

theorem pipeline_frame:
  "df_rows (fst (pipeline df)) = df_rows df
   \<and> df_amount_band (fst (pipeline df)) \<in> {df_amount_band df, Some (amount_band_col (df_rows df))}
   \<and> df_hour_of_day (fst (pipeline df)) \<in> {df_hour_of_day df, Some (hour_of_day_col (df_rows df))}
   \<and> ((\<exists>rep. snd (pipeline df) = Inr rep) \<longleftrightarrow>
         Class ` set (df_rows df) = {0, 1}
       \<and> (\<forall>r \<in> set (df_rows df). \<exists>r' \<in> set (df_rows df).
             assign_risk_band (Amount r') = assign_risk_band (Amount r) \<and> Class r' = 1)
       \<and> (\<forall>r \<in> set (df_rows df). 10 \<le> length (V r)))
   \<and> (\<forall>rep. snd (pipeline df) = Inr rep \<longrightarrow>
         fst (pipeline df) = df\<lparr>df_amount_band := Some (amount_band_col (df_rows df)),
                                 df_hour_of_day := Some (hour_of_day_col (df_rows df))\<rparr>)"
proof -
  let ?P = "\<lambda>d. df_rows d = df_rows df
      \<and> df_amount_band d \<in> {df_amount_band df, Some (amount_band_col (df_rows df))}
      \<and> df_hour_of_day d \<in> {df_hour_of_day df, Some (hour_of_day_col (df_rows df))}"
  have "?P (fst (pipeline df))"
    by (rule pipeline_keeps [where P = ?P]) auto
  then have a: "df_rows (fst (pipeline df)) = df_rows df"
    and b: "df_amount_band (fst (pipeline df)) \<in> {df_amount_band df, Some (amount_band_col (df_rows df))}"
    and c: "df_hour_of_day (fst (pipeline df)) \<in> {df_hour_of_day df, Some (hour_of_day_col (df_rows df))}"
    by blast+
  have d: "(\<exists>rep. snd (pipeline df) = Inr rep) \<longleftrightarrow>
         Class ` set (df_rows df) = {0, 1}
       \<and> (\<forall>r \<in> set (df_rows df). \<exists>r' \<in> set (df_rows df).
             assign_risk_band (Amount r') = assign_risk_band (Amount r) \<and> Class r' = 1)
       \<and> (\<forall>r \<in> set (df_rows df). 10 \<le> length (V r))"
    using pipeline_finishes_if [of df] pipeline_finishes_only_if [of df] by blast
  have e: "fst (pipeline df) = df\<lparr>df_amount_band := Some (amount_band_col (df_rows df)),
                                 df_hour_of_day := Some (hour_of_day_col (df_rows df))\<rparr>"
    if "snd (pipeline df) = Inr rep" for rep
  proof -
    from pipeline_stages [OF that] have "fst (pipeline df) = fst (cell8 (fst (cell7 df)))"
      by auto
    then show ?thesis by (simp add: cell7_frame cell8_frame)
  qed
  from a b c d e show ?thesis by blast
qed

theorem pipeline_frame_witness:
  "fst (pipeline (read_frame
       [\<lparr>Time = 0, V = [1, 2, 3, 4, 5, 6, 7, 8, 9, 10], Amount = 5, Class = 1\<rparr>,
        \<lparr>Time = 60, V = [2, 3, 4, 5, 6, 7, 8, 9, 10, 11], Amount = 7, Class = 0\<rparr>,
        \<lparr>Time = 3600, V = [3, 4, 5, 6, 7, 8, 9, 10, 11, 12], Amount = 50, Class = 1\<rparr>]))
   = \<lparr>df_rows = [\<lparr>Time = 0, V = [1, 2, 3, 4, 5, 6, 7, 8, 9, 10], Amount = 5, Class = 1\<rparr>,
                 \<lparr>Time = 60, V = [2, 3, 4, 5, 6, 7, 8, 9, 10, 11], Amount = 7, Class = 0\<rparr>,
                 \<lparr>Time = 3600, V = [3, 4, 5, 6, 7, 8, 9, 10, 11, 12], Amount = 50, Class = 1\<rparr>],
      df_amount_band = Some [''1. Micro (< $10)'', ''1. Micro (< $10)'', ''2. Low ($10-$99)''],
      df_hour_of_day = Some [0, 0, 1]\<rparr>
   \<and> isl (snd (pipeline (read_frame
       [\<lparr>Time = 0, V = [1, 2, 3, 4, 5, 6, 7, 8, 9, 10], Amount = 5, Class = 1\<rparr>,
        \<lparr>Time = 60, V = [2, 3, 4, 5, 6, 7, 8, 9, 10, 11], Amount = 7, Class = 0\<rparr>,
        \<lparr>Time = 3600, V = [3, 4, 5, 6, 7, 8, 9, 10, 11, 12], Amount = 50, Class = 1\<rparr>]))) = False"
  using pipeline_frame [of "read_frame
       [\<lparr>Time = 0, V = [1, 2, 3, 4, 5, 6, 7, 8, 9, 10], Amount = 5, Class = 1\<rparr>,
        \<lparr>Time = 60, V = [2, 3, 4, 5, 6, 7, 8, 9, 10, 11], Amount = 7, Class = 0\<rparr>,
        \<lparr>Time = 3600, V = [3, 4, 5, 6, 7, 8, 9, 10, 11, 12], Amount = 50, Class = 1\<rparr>]"]
  by (simp add: run_defs)

end
